theory Spec2Isabelle
  imports Complex_Main "HOL-Library.Multiset" "HOL-Library.Log_Nat"
begin

section \<open>The cart service of skinalyze-be-v2 (class CartService)\<close>

text \<open>
  The embedding follows \<^verbatim>\<open>CartService\<close> function by function. Quantities are
  \<^typ>\<open>int\<close>; prices and percentages are \<^typ>\<open>rat\<close>, and the arithmetic of the price
  computation rounds the result of every operation to the nearest double, as JavaScript
  does (there is no NaN and no infinity). The totals are summed exactly, which for
  integer prices and quantities is what the sum in doubles gives below \<open>2\<^sup>5\<^sup>3\<close>.
  Every collaborator call of the source (the cache
  manager, the product catalog, the inventory service) is an explicit step on a world
  state and is appended to a log of calls, so that what a function did, and in which
  order, is part of its result. An exception is a value \<open>Inl e\<close>.
\<close>

subsection \<open>Data model\<close>

text \<open>
  Modelled from the spec: the interfaces \<^verbatim>\<open>CartItem\<close> and \<^verbatim>\<open>Cart\<close>, whose file
  (interfaces/cart-item.interface.ts) is not among the sources; the fields are those the
  service reads and writes. The flag \<^verbatim>\<open>selected\<close> is compared with \<^verbatim>\<open>=== true\<close> by
  the service, so it may be absent: \<open>None\<close> is the absent (undefined) flag. Dates are
  milliseconds since the epoch.
\<close>

record cartItem =
  productId :: string
  productName :: string
  price :: rat
  originalPrice :: rat
  salePercentage :: rat
  quantity :: int
  addedAt :: nat
  selected :: "bool option"

record cart =
  userId :: string
  items :: "cartItem list"
  totalItems :: int
  totalPrice :: rat
  updatedAt :: nat

text \<open>
  Modelled from the spec: what \<^verbatim>\<open>productsService.findOne\<close> resolves a product
  identifier to (the product entity is not among the sources); the sale percentage may
  be null.
\<close>

record product =
  p_productId :: string
  p_productName :: string
  sellingPrice :: rat
  p_salePercentage :: "rat option"

datatype error =
    NotFoundException string
  | BadRequestException string
  | TypeError
  | ServiceError string

text \<open>A value held by the cache: a cart, or the text written by the connection test.\<close>

datatype cached = CartValue cart | TextValue string

datatype call =
    CacheGet string
  | CacheSet string cached nat
  | CacheDel string
  | FindOne string
  | ReserveStock string int
  | ReleaseReservation string int

text \<open>
  The inventory service is a collaborator whose code is not among the sources: it is a
  parameter of every operation, a pair of functions on its own state \<open>'i\<close>. Either call
  may throw. The catalog is a map from product identifiers, part of the world; the cache
  always answers.
\<close>

record 'i inventoryService =
  reserveStock :: "'i \<Rightarrow> string \<Rightarrow> int \<Rightarrow> (error + bool) \<times> 'i"
  releaseReservation :: "'i \<Rightarrow> string \<Rightarrow> int \<Rightarrow> (error + unit) \<times> 'i"

record 'i world =
  cache :: "string \<rightharpoonup> cached"
  products :: "string \<rightharpoonup> product"
  stock :: 'i
  calls :: "call list"

subsection \<open>Rendering numbers in template strings\<close>

definition digit :: "nat \<Rightarrow> char" where
  "digit d = ''0123456789'' ! d"

fun show_nat :: "nat \<Rightarrow> string" where
  "show_nat n = (if n < 10 then [digit n] else show_nat (n div 10) @ [digit (n mod 10)])"

declare show_nat.simps [simp del]

definition show_int :: "int \<Rightarrow> string" where
  "show_int i = (if i < 0 then CHR ''-'' # show_nat (nat (- i)) else show_nat (nat i))"

subsection \<open>Collaborator calls\<close>

definition cache_get :: "'i world \<Rightarrow> string \<Rightarrow> cached option \<times> 'i world" where
  "cache_get w k = (cache w k, w\<lparr>calls := calls w @ [CacheGet k]\<rparr>)"

definition cache_set :: "'i world \<Rightarrow> string \<Rightarrow> cached \<Rightarrow> nat \<Rightarrow> 'i world" where
  "cache_set w k v ttl = w\<lparr>cache := (cache w)(k \<mapsto> v), calls := calls w @ [CacheSet k v ttl]\<rparr>"

definition cache_del :: "'i world \<Rightarrow> string \<Rightarrow> 'i world" where
  "cache_del w k = w\<lparr>cache := (cache w)(k := None), calls := calls w @ [CacheDel k]\<rparr>"

definition findOne :: "'i world \<Rightarrow> string \<Rightarrow> product option \<times> 'i world" where
  "findOne w pid = (products w pid, w\<lparr>calls := calls w @ [FindOne pid]\<rparr>)"

definition reserve :: "'i inventoryService \<Rightarrow> 'i world \<Rightarrow> string \<Rightarrow> int \<Rightarrow> (error + bool) \<times> 'i world" where
  "reserve svc w pid q =
     (case reserveStock svc (stock w) pid q of
        (r, s) \<Rightarrow> (r, w\<lparr>stock := s, calls := calls w @ [ReserveStock pid q]\<rparr>))"

definition release :: "'i inventoryService \<Rightarrow> 'i world \<Rightarrow> string \<Rightarrow> int \<Rightarrow> (error + unit) \<times> 'i world" where
  "release svc w pid q =
     (case releaseReservation svc (stock w) pid q of
        (r, s) \<Rightarrow> (r, w\<lparr>stock := s, calls := calls w @ [ReleaseReservation pid q]\<rparr>))"

subsection \<open>Pure helpers of the service\<close>

definition getCartKey :: "string \<Rightarrow> string" where
  "getCartKey uid = ''cart:'' @ uid"

text \<open>The key of the connection test at the head of \<^verbatim>\<open>addToCart\<close>: \<^verbatim>\<open>`test:${Date.now()}`\<close>.\<close>

definition testKey :: "nat \<Rightarrow> string" where
  "testKey now = ''test:'' @ show_nat now"

text \<open>
  JavaScript's numbers are IEEE 754 doubles: the result of an arithmetic operation is the
  exact result rounded to the nearest number with a significand of 53 bits, a tie going
  to the even significand. \<open>floorLog2 a\<close> is the exponent of a positive number,
  \<open>toDouble\<close> the rounding. The range of exponents is taken as unbounded (no overflow
  and no subnormal numbers): prices are far from both ends.
\<close>

definition floorLog2 :: "rat \<Rightarrow> int" where
  "floorLog2 a = (if 1 \<le> a then bitlen \<lfloor>a\<rfloor> - 1 else - bitlen (\<lceil>1 / a\<rceil> - 1))"

definition roundTiesToEven :: "rat \<Rightarrow> int" where
  "roundTiesToEven r =
     (let f = \<lfloor>r\<rfloor>; d = r - of_int f
      in if d < 1 / 2 then f else if 1 / 2 < d then f + 1 else if even f then f else f + 1)"

definition toDouble :: "rat \<Rightarrow> rat" where
  "toDouble x =
     (if x = 0 then 0
      else (let e = floorLog2 \<bar>x\<bar> - 52; m = roundTiesToEven (\<bar>x\<bar> / (2 powi e))
            in sgn x * of_int m * (2 powi e)))"

text \<open>
  \<^verbatim>\<open>Math.round\<close>: the nearest integer, a half rounding towards plus infinity; it is
  exact on a double.
\<close>

definition Math_round :: "rat \<Rightarrow> rat" where
  "Math_round x = of_int \<lfloor>x + 1 / 2\<rfloor>"

text \<open>
  \<^verbatim>\<open>!salePercentage || salePercentage <= 0\<close>: null and 0 are falsy. The product, the
  quotient and the difference are each rounded to a double.
\<close>

definition calculateFinalPrice :: "rat \<Rightarrow> rat option \<Rightarrow> rat" where
  "calculateFinalPrice sp pct =
     (case pct of
        None \<Rightarrow> sp
      | Some p \<Rightarrow>
          if p = 0 \<or> p \<le> 0 then sp
          else (let discount = toDouble (toDouble (sp * p) / 100);
                    finalPrice = toDouble (sp - discount)
                in Math_round finalPrice))"

text \<open>\<^verbatim>\<open>x || 0\<close> on a number, and on a nullable number.\<close>

definition or_zero :: "rat \<Rightarrow> rat" where
  "or_zero x = (if x = 0 then 0 else x)"

definition opt_or_zero :: "rat option \<Rightarrow> rat" where
  "opt_or_zero x = (case x of None \<Rightarrow> 0 | Some v \<Rightarrow> or_zero v)"

text \<open>\<^verbatim>\<open>Array.prototype.findIndex\<close>: the first index that satisfies the test, or -1.\<close>

fun findIndex :: "('a \<Rightarrow> bool) \<Rightarrow> 'a list \<Rightarrow> int" where
  "findIndex P [] = - 1"
| "findIndex P (x # xs) =
     (if P x then 0 else (let i = findIndex P xs in if i = - 1 then - 1 else i + 1))"

text \<open>
  \<^verbatim>\<open>items.find(test)\<close> followed by an assignment to a field of the object found:
  the first item that satisfies the test is changed in place.
\<close>

fun update_found :: "('a \<Rightarrow> bool) \<Rightarrow> ('a \<Rightarrow> 'a) \<Rightarrow> 'a list \<Rightarrow> 'a list" where
  "update_found P f [] = []"
| "update_found P f (x # xs) = (if P x then f x # xs else x # update_found P f xs)"

text \<open>\<^verbatim>\<open>items.splice(i, 1)\<close>.\<close>

definition splice1 :: "nat \<Rightarrow> 'a list \<Rightarrow> 'a list" where
  "splice1 i xs = take i xs @ drop (Suc i) xs"

text \<open>The two \<^verbatim>\<open>reduce\<close> calls that recompute the totals.\<close>

definition sumQuantity :: "cartItem list \<Rightarrow> int" where
  "sumQuantity its = foldl (\<lambda>sum item. sum + quantity item) 0 its"

definition sumPrice :: "cartItem list \<Rightarrow> rat" where
  "sumPrice its = foldl (\<lambda>sum item. sum + or_zero (price item) * of_int (quantity item)) 0 its"

definition recalculate :: "cart \<Rightarrow> cart" where
  "recalculate c = c\<lparr>totalItems := sumQuantity (items c), totalPrice := sumPrice (items c)\<rparr>"

definition emptyCart :: "string \<Rightarrow> nat \<Rightarrow> cart" where
  "emptyCart uid now = \<lparr>userId = uid, items = [], totalItems = 0, totalPrice = 0, updatedAt = now\<rparr>"

text \<open>The message of the exception thrown when a reservation is refused, as UTF-8 bytes.\<close>

definition outOfStockMessage :: string where
  "outOfStockMessage =
     ''Kh'' @ [CHR 0xC3, CHR 0xB4] @ ''ng '' @ [CHR 0xC4, CHR 0x91, CHR 0xE1, CHR 0xBB, CHR 0xA7]
       @ '' h'' @ [CHR 0xC3, CHR 0xA0] @ ''ng trong kho''"

subsection \<open>The operations of the service\<close>

text \<open>
  Every operation takes the inventory service, the world, its arguments and the clock
  reading \<open>now\<close> of the call, and returns its result with the world it leaves.

  \<^verbatim>\<open>getCart\<close> returns whatever the cache holds under the key unless that is falsy. The
  cache is typed by a cast only (\<^verbatim>\<open>get<Cart>\<close>), so a text value would be returned as it
  is; the callers then fail at their first access to \<^verbatim>\<open>cart.items\<close>.
\<close>

definition getCart :: "'i world \<Rightarrow> string \<Rightarrow> nat \<Rightarrow> cached \<times> 'i world" where
  "getCart w uid now =
     (case cache_get w (getCartKey uid) of
        (None, w1) \<Rightarrow> (CartValue (emptyCart uid now), w1)
      | (Some (TextValue s), w1) \<Rightarrow>
          (if s = [] then CartValue (emptyCart uid now) else TextValue s, w1)
      | (Some (CartValue c), w1) \<Rightarrow> (CartValue c, w1))"

definition newItem :: "string \<Rightarrow> product \<Rightarrow> rat \<Rightarrow> int \<Rightarrow> nat \<Rightarrow> cartItem" where
  "newItem pid p finalPrice q now =
     \<lparr>productId = pid, productName = p_productName p, price = finalPrice,
      originalPrice = sellingPrice p, salePercentage = opt_or_zero (p_salePercentage p),
      quantity = q, addedAt = now, selected = Some True\<rparr>"

definition addToCart ::
  "'i inventoryService \<Rightarrow> 'i world \<Rightarrow> string \<Rightarrow> string \<Rightarrow> int \<Rightarrow> nat \<Rightarrow> (error + cart) \<times> 'i world" where
  "addToCart svc w uid pid q now =
     (let w1 = cache_set w (testKey now) (TextValue ''test'') 10000;
          (testValue, w2) = cache_get w1 (testKey now);
          (found, w3) = findOne w2 pid
      in case found of
           None \<Rightarrow> (Inl (NotFoundException (''Product with ID '' @ pid @ '' not found'')), w3)
         | Some p \<Rightarrow>
             (case getCart w3 uid now of
                (TextValue s, w4) \<Rightarrow> (Inl TypeError, w4)
              | (CartValue c, w4) \<Rightarrow>
                  (let existingItemIndex = findIndex (\<lambda>item. productId item = pid) (items c)
                   in case reserve svc w4 pid q of
                        (Inl e, w5) \<Rightarrow> (Inl e, w5)
                      | (Inr success, w5) \<Rightarrow>
                          if \<not> success then (Inl (BadRequestException outOfStockMessage), w5)
                          else
                            (let finalPrice = calculateFinalPrice (sellingPrice p) (p_salePercentage p);
                                 its =
                                   (if existingItemIndex > - 1
                                    then (items c)[nat existingItemIndex :=
                                           (items c ! nat existingItemIndex)
                                             \<lparr>price := finalPrice,
                                              originalPrice := sellingPrice p,
                                              salePercentage := opt_or_zero (p_salePercentage p),
                                              quantity := quantity (items c ! nat existingItemIndex) + q\<rparr>]
                                    else items c @ [newItem pid p finalPrice q now]);
                                 c1 = (recalculate (c\<lparr>items := its\<rparr>))\<lparr>updatedAt := now\<rparr>;
                                 w6 = cache_set w5 (getCartKey uid) (CartValue c1) 86400000
                             in (Inr c1, w6)))))"

text \<open>The reservation is adjusted by the difference between the new and the old quantity.\<close>

definition adjustReservation ::
  "'i inventoryService \<Rightarrow> 'i world \<Rightarrow> string \<Rightarrow> int \<Rightarrow> int \<Rightarrow> (error + unit) \<times> 'i world" where
  "adjustReservation svc w pid oldQuantity quantityDiff =
     (if quantityDiff > 0 then
        (case reserve svc w pid quantityDiff of
           (Inl e, w1) \<Rightarrow> (Inl e, w1)
         | (Inr success, w1) \<Rightarrow>
             if \<not> success
             then (Inl (BadRequestException
                     (''Cannot increase quantity. Only '' @ show_int oldQuantity
                        @ '' available in stock.'')), w1)
             else (Inr (), w1))
      else if quantityDiff < 0 then release svc w pid \<bar>quantityDiff\<bar>
      else (Inr (), w))"

definition updateCartItem ::
  "'i inventoryService \<Rightarrow> 'i world \<Rightarrow> string \<Rightarrow> string \<Rightarrow> int \<Rightarrow> nat \<Rightarrow> (error + cart) \<times> 'i world" where
  "updateCartItem svc w uid pid q now =
     (if q \<le> 0 then (Inl (BadRequestException ''Quantity must be greater than 0''), w)
      else
        (case getCart w uid now of
           (TextValue s, w1) \<Rightarrow> (Inl TypeError, w1)
         | (CartValue c, w1) \<Rightarrow>
             (let itemIndex = findIndex (\<lambda>item. productId item = pid) (items c)
              in if itemIndex = - 1
                 then (Inl (NotFoundException
                         (''Product with ID '' @ pid @ '' not found in cart'')), w1)
                 else
                   (let oldQuantity = quantity (items c ! nat itemIndex);
                        quantityDiff = q - oldQuantity
                    in case adjustReservation svc w1 pid oldQuantity quantityDiff of
                         (Inl e, w2) \<Rightarrow> (Inl e, w2)
                       | (Inr u, w2) \<Rightarrow>
                           (let its = (items c)[nat itemIndex :=
                                        (items c ! nat itemIndex)\<lparr>quantity := q\<rparr>];
                                c1 = (recalculate (c\<lparr>items := its\<rparr>))\<lparr>updatedAt := now\<rparr>;
                                w3 = cache_set w2 (getCartKey uid) (CartValue c1) 86400000
                            in (Inr c1, w3))))))"

text \<open>The cart is written back, or its key deleted when no item is left.\<close>

definition saveOrDelete :: "'i world \<Rightarrow> string \<Rightarrow> cart \<Rightarrow> 'i world" where
  "saveOrDelete w uid c =
     (if length (items c) = 0 then cache_del w (getCartKey uid)
      else cache_set w (getCartKey uid) (CartValue c) 86400000)"

definition removeFromCart ::
  "'i inventoryService \<Rightarrow> 'i world \<Rightarrow> string \<Rightarrow> string \<Rightarrow> nat \<Rightarrow> (error + cart) \<times> 'i world" where
  "removeFromCart svc w uid pid now =
     (case getCart w uid now of
        (TextValue s, w1) \<Rightarrow> (Inl TypeError, w1)
      | (CartValue c, w1) \<Rightarrow>
          (let itemIndex = findIndex (\<lambda>item. productId item = pid) (items c)
           in if itemIndex = - 1
              then (Inl (NotFoundException
                      (''Product with ID '' @ pid @ '' not found in cart'')), w1)
              else
                (let item = items c ! nat itemIndex
                 in case release svc w1 (productId item) (quantity item) of
                      (Inl e, w2) \<Rightarrow> (Inl e, w2)
                    | (Inr u, w2) \<Rightarrow>
                        (let its = splice1 (nat itemIndex) (items c);
                             c1 = (recalculate (c\<lparr>items := its\<rparr>))\<lparr>updatedAt := now\<rparr>
                         in (Inr c1, saveOrDelete w2 uid c1)))))"

definition toggleSelectItem ::
  "'i world \<Rightarrow> string \<Rightarrow> string \<Rightarrow> bool \<Rightarrow> nat \<Rightarrow> (error + cart) \<times> 'i world" where
  "toggleSelectItem w uid pid sel now =
     (case getCart w uid now of
        (TextValue s, w1) \<Rightarrow> (Inl TypeError, w1)
      | (CartValue c, w1) \<Rightarrow>
          (case find (\<lambda>item. productId item = pid) (items c) of
             None \<Rightarrow> (Inl (NotFoundException ''Product not found in cart''), w1)
           | Some item \<Rightarrow>
               (let its = update_found (\<lambda>item. productId item = pid)
                            (\<lambda>item. item\<lparr>selected := Some sel\<rparr>) (items c);
                    c1 = c\<lparr>items := its, updatedAt := now\<rparr>;
                    w2 = cache_set w1 (getCartKey uid) (CartValue c1) 86400000
                in (Inr c1, w2))))"

definition toggleSelectAll ::
  "'i world \<Rightarrow> string \<Rightarrow> bool \<Rightarrow> nat \<Rightarrow> (error + cart) \<times> 'i world" where
  "toggleSelectAll w uid sel now =
     (case getCart w uid now of
        (TextValue s, w1) \<Rightarrow> (Inl TypeError, w1)
      | (CartValue c, w1) \<Rightarrow>
          (let its = map (\<lambda>item. item\<lparr>selected := Some sel\<rparr>) (items c);
               c1 = c\<lparr>items := its, updatedAt := now\<rparr>;
               w2 = cache_set w1 (getCartKey uid) (CartValue c1) 86400000
           in (Inr c1, w2)))"

definition getSelectedItems :: "cart \<Rightarrow> cartItem list" where
  "getSelectedItems c = filter (\<lambda>item. selected item = Some True) (items c)"

definition removeSelectedItems ::
  "'i world \<Rightarrow> string \<Rightarrow> nat \<Rightarrow> (error + cart) \<times> 'i world" where
  "removeSelectedItems w uid now =
     (case getCart w uid now of
        (TextValue s, w1) \<Rightarrow> (Inl TypeError, w1)
      | (CartValue c, w1) \<Rightarrow>
          (let its = filter (\<lambda>item. selected item \<noteq> Some True) (items c);
               c1 = (recalculate (c\<lparr>items := its\<rparr>))\<lparr>updatedAt := now\<rparr>
           in (Inr c1, saveOrDelete w1 uid c1)))"

text \<open>The loop of \<^verbatim>\<open>clearCart\<close>: an exception of a release call leaves the loop.\<close>

fun releaseAll ::
  "'i inventoryService \<Rightarrow> 'i world \<Rightarrow> cartItem list \<Rightarrow> (error + unit) \<times> 'i world" where
  "releaseAll svc w [] = (Inr (), w)"
| "releaseAll svc w (item # rest) =
     (case release svc w (productId item) (quantity item) of
        (Inl e, w1) \<Rightarrow> (Inl e, w1)
      | (Inr u, w1) \<Rightarrow> releaseAll svc w1 rest)"

definition clearCart ::
  "'i inventoryService \<Rightarrow> 'i world \<Rightarrow> string \<Rightarrow> nat \<Rightarrow> (error + unit) \<times> 'i world" where
  "clearCart svc w uid now =
     (case getCart w uid now of
        (TextValue s, w1) \<Rightarrow> (Inl TypeError, w1)
      | (CartValue c, w1) \<Rightarrow>
          (case (if length (items c) > 0 then releaseAll svc w1 (items c) else (Inr (), w1)) of
             (Inl e, w2) \<Rightarrow> (Inl e, w2)
           | (Inr u, w2) \<Rightarrow> (Inr (), cache_del w2 (getCartKey uid))))"

text \<open>
  \<^verbatim>\<open>removeItemsByProductIds\<close> tests \<^verbatim>\<open>!cart.items\<close> first, so a text value is an
  empty cart to it.
\<close>

definition removeItemsByProductIds ::
  "'i world \<Rightarrow> string \<Rightarrow> string list \<Rightarrow> nat \<Rightarrow> (error + cart) \<times> 'i world" where
  "removeItemsByProductIds w uid productIds now =
     (case getCart w uid now of
        (TextValue s, w1) \<Rightarrow> (Inl (NotFoundException ''Cart is empty''), w1)
      | (CartValue c, w1) \<Rightarrow>
          if length (items c) = 0 then (Inl (NotFoundException ''Cart is empty''), w1)
          else
            (let its = filter (\<lambda>item. productId item \<notin> set productIds) (items c);
                 c1 = recalculate (c\<lparr>items := its\<rparr>)
             in if length (items c1) = 0
                then (Inr (emptyCart uid now), cache_del w1 (getCartKey uid))
                else
                  (let c2 = c1\<lparr>updatedAt := now\<rparr>
                   in (Inr c2, cache_set w1 (getCartKey uid) (CartValue c2) 86400000))))"

subsection \<open>Sequences of mutations\<close>

datatype mutation =
    AddToCart string string int
  | UpdateCartItem string string int
  | RemoveFromCart string string
  | ToggleSelectItem string string bool
  | ToggleSelectAll string bool
  | RemoveSelectedItems string
  | RemoveItemsByProductIds string "string list"

fun perform ::
  "'i inventoryService \<Rightarrow> 'i world \<Rightarrow> mutation \<Rightarrow> nat \<Rightarrow> (error + cart) \<times> 'i world" where
  "perform svc w (AddToCart uid pid q) now = addToCart svc w uid pid q now"
| "perform svc w (UpdateCartItem uid pid q) now = updateCartItem svc w uid pid q now"
| "perform svc w (RemoveFromCart uid pid) now = removeFromCart svc w uid pid now"
| "perform svc w (ToggleSelectItem uid pid sel) now = toggleSelectItem w uid pid sel now"
| "perform svc w (ToggleSelectAll uid sel) now = toggleSelectAll w uid sel now"
| "perform svc w (RemoveSelectedItems uid) now = removeSelectedItems w uid now"
| "perform svc w (RemoveItemsByProductIds uid pids) now = removeItemsByProductIds w uid pids now"

text \<open>
  A sequence of calls, each with the clock reading of its call; the result lists, call by
  call, what was returned and the world the call left.
\<close>

fun run ::
  "'i inventoryService \<Rightarrow> 'i world \<Rightarrow> (mutation \<times> nat) list \<Rightarrow> ((error + cart) \<times> 'i world) list" where
  "run svc w [] = []"
| "run svc w ((m, now) # ms) =
     (case perform svc w m now of (r, w1) \<Rightarrow> (r, w1) # run svc w1 ms)"

subsection \<open>Properties of carts and of the cache\<close>

text \<open>The totals of a cart are the sums over its items.\<close>

definition totals_ok :: "cart \<Rightarrow> bool" where
  "totals_ok c \<longleftrightarrow>
     totalItems c = sum_list (map quantity (items c)) \<and>
     totalPrice c = (\<Sum>i\<leftarrow>items c. price i * of_int (quantity i))"

text \<open>Every cart held by the cache has such totals.\<close>

definition store_ok :: "'i world \<Rightarrow> bool" where
  "store_ok w \<longleftrightarrow> (\<forall>k c. cache w k = Some (CartValue c) \<longrightarrow> totals_ok c)"

text \<open>A cart has at most one line per product; so has every cart held by the cache.\<close>

definition lines_ok :: "cart \<Rightarrow> bool" where
  "lines_ok c \<longleftrightarrow> distinct (map productId (items c))"

definition store_lines_ok :: "'i world \<Rightarrow> bool" where
  "store_lines_ok w \<longleftrightarrow> (\<forall>k c. cache w k = Some (CartValue c) \<longrightarrow> lines_ok c)"

text \<open>No cart held by the cache is without items.\<close>

definition store_nonempty :: "'i world \<Rightarrow> bool" where
  "store_nonempty w \<longleftrightarrow> (\<forall>k c. cache w k = Some (CartValue c) \<longrightarrow> items c \<noteq> [])"

text \<open>
  The line of a product that is added again: the quantity grows by the quantity added,
  and the price, the original price and the sale percentage are those of the catalog now.
\<close>

definition reprice :: "product \<Rightarrow> int \<Rightarrow> cartItem \<Rightarrow> cartItem" where
  "reprice p q item =
     item\<lparr>price := calculateFinalPrice (sellingPrice p) (p_salePercentage p),
          originalPrice := sellingPrice p,
          salePercentage := opt_or_zero (p_salePercentage p),
          quantity := quantity item + q\<rparr>"

subsection \<open>An inventory service and a catalog for the examples\<close>

text \<open>
  Modelled from the spec: the inventory service (\<^verbatim>\<open>InventoryService\<close>, whose source is
  not part of the cart service). It holds the available units of each product;
  \<^verbatim>\<open>reserveStock\<close> succeeds when that many units are available and takes them,
  \<^verbatim>\<open>releaseReservation\<close> gives them back and always succeeds.
\<close>

definition counterInventory :: "(string \<Rightarrow> int) inventoryService" where
  "counterInventory =
     \<lparr>reserveStock =
        (\<lambda>s pid q. if q \<le> s pid then (Inr True, s(pid := s pid - q)) else (Inr False, s)),
      releaseReservation = (\<lambda>s pid q. (Inr (), s(pid := s pid + q)))\<rparr>"

definition exampleProducts :: "string \<rightharpoonup> product" where
  "exampleProducts =
     [''P1'' \<mapsto> \<lparr>p_productId = ''P1'', p_productName = ''Cleanser'', sellingPrice = 1000,
                 p_salePercentage = Some 10\<rparr>,
      ''P2'' \<mapsto> \<lparr>p_productId = ''P2'', p_productName = ''Toner'', sellingPrice = 250,
                 p_salePercentage = None\<rparr>]"

text \<open>A world with nothing in the cache and no call made yet.\<close>

definition freshWorld :: "'i \<Rightarrow> 'i world" where
  "freshWorld s = \<lparr>cache = Map.empty, products = exampleProducts, stock = s, calls = []\<rparr>"


text \<open>
  A world whose cache holds the cart of user U1, with one line of 2 units of P1 added
  before P1 went on sale.
\<close>

definition exampleItem :: cartItem where
  "exampleItem =
     \<lparr>productId = ''P1'', productName = ''Cleanser'', price = 1000, originalPrice = 1000,
      salePercentage = 0, quantity = 2, addedAt = 10, selected = Some False\<rparr>"

definition exampleCart :: cart where
  "exampleCart =
     \<lparr>userId = ''U1'', items = [exampleItem], totalItems = 2, totalPrice = 2000, updatedAt = 10\<rparr>"

definition cartWorld :: "'i \<Rightarrow> 'i world" where
  "cartWorld s =
     \<lparr>cache = [getCartKey ''U1'' \<mapsto> CartValue exampleCart], products = exampleProducts,
      stock = s, calls = []\<rparr>"

text \<open>
  A cart with a selected item, an unselected item and an item whose flag is absent.
\<close>

definition itemA :: cartItem where
  "itemA = \<lparr>productId = ''P1'', productName = ''Cleanser'', price = 900, originalPrice = 1000,
      salePercentage = 10, quantity = 3, addedAt = 10, selected = Some True\<rparr>"

definition itemB :: cartItem where
  "itemB = \<lparr>productId = ''P2'', productName = ''Toner'', price = 250, originalPrice = 250,
      salePercentage = 0, quantity = 3, addedAt = 20, selected = Some False\<rparr>"

definition itemC :: cartItem where
  "itemC = \<lparr>productId = ''P3'', productName = ''Serum'', price = 400, originalPrice = 400,
      salePercentage = 0, quantity = 1, addedAt = 30, selected = None\<rparr>"

definition mixedCart :: cart where
  "mixedCart =
     \<lparr>userId = ''U2'', items = [itemA, itemB, itemC], totalItems = 7, totalPrice = 3850,
      updatedAt = 30\<rparr>"

definition mixedWorld :: "'i \<Rightarrow> 'i world" where
  "mixedWorld s =
     \<lparr>cache = [getCartKey ''U2'' \<mapsto> CartValue mixedCart], products = exampleProducts,
      stock = s, calls = []\<rparr>"

text \<open>
  An inventory service whose release call throws for the products of a given list (the
  inventory database failing on them, say), and is \<open>counterInventory\<close> otherwise.
\<close>

definition faultyInventory :: "string list \<Rightarrow> (string \<Rightarrow> int) inventoryService" where
  "faultyInventory broken =
     \<lparr>reserveStock =
        (\<lambda>s pid q. if q \<le> s pid then (Inr True, s(pid := s pid - q)) else (Inr False, s)),
      releaseReservation =
        (\<lambda>s pid q. if pid \<in> set broken then (Inl (ServiceError ''release failed''), s)
                    else (Inr (), s(pid := s pid + q)))\<rparr>"

text \<open>A cart of two items of 3 units each, and a world that holds it.\<close>

definition pairCart :: cart where
  "pairCart =
     \<lparr>userId = ''U3'', items = [itemA, itemB], totalItems = 6, totalPrice = 3450, updatedAt = 20\<rparr>"

definition pairWorld :: "'i \<Rightarrow> 'i world" where
  "pairWorld s =
     \<lparr>cache = [getCartKey ''U3'' \<mapsto> CartValue pairCart], products = exampleProducts,
      stock = s, calls = []\<rparr>"

text \<open>The release call for the full quantity of an item.\<close>

definition releaseCall :: "cartItem \<Rightarrow> call" where
  "releaseCall item = ReleaseReservation (productId item) (quantity item)"

text \<open>
  The state of the inventory after the release calls for the items of a list, made one
  after the other, have all returned; \<open>None\<close> when one of them throws.
\<close>

fun releasesReturn :: "'i inventoryService \<Rightarrow> 'i \<Rightarrow> cartItem list \<Rightarrow> 'i option" where
  "releasesReturn svc s [] = Some s"
| "releasesReturn svc s (item # rest) =
     (case releaseReservation svc s (productId item) (quantity item) of
        (Inl e, s1) \<Rightarrow> None
      | (Inr u, s1) \<Rightarrow> releasesReturn svc s1 rest)"

section \<open>Proofs\<close>

subsection \<open>Helpers\<close>

lemma foldl_add_sum: "foldl (\<lambda>s x. s + f x) a xs = a + sum_list (map f xs)"
  for a :: "'a::monoid_add"
  by (induction xs arbitrary: a) (simp_all add: add.assoc)

lemma sumQuantity_sum: "sumQuantity its = sum_list (map quantity its)"
  by (simp add: sumQuantity_def foldl_add_sum)

lemma sumPrice_sum: "sumPrice its = (\<Sum>i\<leftarrow>its. price i * of_int (quantity i))"
  by (simp add: sumPrice_def foldl_add_sum or_zero_def)

lemma findIndex_ge: "- 1 \<le> findIndex P xs"
  by (induction xs) (auto simp: Let_def)

lemma findIndex_none: "findIndex P xs = - 1 \<longleftrightarrow> (\<forall>x \<in> set xs. \<not> P x)"
proof (induction xs)
  case Nil
  then show ?case by simp
next
  case (Cons x xs)
  have "findIndex P xs + 1 \<noteq> - 1" using findIndex_ge [of P xs] by arith
  with Cons show ?case by (auto simp: Let_def)
qed

lemma findIndex_found:
  "findIndex P xs \<noteq> - 1 \<Longrightarrow>
   0 \<le> findIndex P xs \<and> nat (findIndex P xs) < length xs \<and> P (xs ! nat (findIndex P xs))"
proof (induction xs)
  case Nil
  then show ?case by simp
next
  case (Cons x xs)
  show ?case
  proof (cases "P x")
    case True
    then show ?thesis by simp
  next
    case False
    with Cons.prems have ne: "findIndex P xs \<noteq> - 1" by (auto simp: Let_def)
    from Cons.IH [OF ne] False ne show ?thesis
      by (auto simp: Let_def nat_add_distrib)
  qed
qed

text \<open>No cart key is the key of a connection test.\<close>

lemma key_distinct [simp]: "getCartKey uid \<noteq> testKey now" "testKey now \<noteq> getCartKey uid"
  by (simp_all add: getCartKey_def testKey_def)

subsection \<open>Rounding to a double\<close>

lemma powi_nat: "0 \<le> l \<Longrightarrow> (2::rat) powi l = 2 ^ nat l"
  by (simp add: power_int_def)

lemma floorLog2_ge1:
  assumes "1 \<le> a"
  shows "2 powi (floorLog2 a) \<le> a \<and> a < 2 powi (floorLog2 a + 1)"
proof -
  let ?n = "\<lfloor>a\<rfloor>"
  from assms have n: "0 < ?n" by linarith
  from bitlen_bounds [OF n] have b1: "2 ^ nat (bitlen ?n - 1) \<le> ?n" and b2: "?n < 2 ^ nat (bitlen ?n)"
    by simp_all
  from n have bl: "1 \<le> bitlen ?n" by (simp add: bitlen_alt_def)
  have f: "floorLog2 a = bitlen ?n - 1" using assms by (simp add: floorLog2_def)
  have "(2::rat) powi (bitlen ?n - 1) = of_int (2 ^ nat (bitlen ?n - 1))"
    using bl by (simp add: powi_nat)
  also have "\<dots> \<le> of_int ?n" using b1 by (simp only: of_int_le_iff)
  also have "\<dots> \<le> a" by simp
  finally have lo: "2 powi (floorLog2 a) \<le> a" by (simp add: f)
  from b2 have "?n + 1 \<le> 2 ^ nat (bitlen ?n)" by simp
  then have "(of_int (?n + 1) :: rat) \<le> of_int (2 ^ nat (bitlen ?n))" by (simp only: of_int_le_iff)
  moreover have "a < of_int (?n + 1)" by linarith
  ultimately have "a < of_int (2 ^ nat (bitlen ?n))" by linarith
  also have "\<dots> = 2 powi (bitlen ?n)" using bl by (simp add: powi_nat)
  finally have hi: "a < 2 powi (floorLog2 a + 1)" by (simp add: f)
  from lo hi show ?thesis ..
qed

lemma floorLog2_lt1:
  assumes "0 < a" "a < 1"
  shows "2 powi (floorLog2 a) \<le> a \<and> a < 2 powi (floorLog2 a + 1)"
proof -
  let ?b = "1 / a"
  let ?n = "\<lceil>?b\<rceil>"
  from assms have b: "1 < ?b" by simp
  then have n2: "2 \<le> ?n" by linarith
  then have n: "0 < ?n - 1" by simp
  let ?k = "bitlen (?n - 1)"
  from bitlen_bounds [OF n] have b1: "2 ^ nat (?k - 1) \<le> ?n - 1" and b2: "?n - 1 < 2 ^ nat ?k"
    by simp_all
  from n have bl: "1 \<le> ?k" by (simp add: bitlen_alt_def)
  have f: "floorLog2 a = - ?k" using assms by (simp add: floorLog2_def)
  have "?b \<le> of_int ?n" by simp
  also have "(of_int ?n :: rat) \<le> of_int (2 ^ nat ?k)"
  proof -
    from b2 have "?n \<le> 2 ^ nat ?k" by simp
    then show ?thesis by (simp only: of_int_le_iff)
  qed
  finally have up: "?b \<le> 2 ^ nat ?k" by simp
  have "(of_int (2 ^ nat (?k - 1)) :: rat) \<le> of_int (?n - 1)" using b1 by (simp only: of_int_le_iff)
  moreover have "of_int (?n - 1) < ?b" by linarith
  ultimately have low: "2 ^ nat (?k - 1) < ?b" by simp
  have p1: "(2::rat) powi (- ?k) = 1 / 2 ^ nat ?k"
    using bl by (simp add: power_int_def field_simps)
  have p2: "(2::rat) powi (1 - ?k) = 1 / 2 ^ nat (?k - 1)"
    using bl by (simp add: power_int_def field_simps nat_diff_distrib)
  from up assms have lo: "1 / 2 ^ nat ?k \<le> a"
    by (simp add: field_simps)
  from low assms have hi: "a < 1 / 2 ^ nat (?k - 1)"
    by (simp add: field_simps)
  from lo hi show ?thesis by (simp add: f p1 p2)
qed

lemma floorLog2_bounds:
  "0 < a \<Longrightarrow> 2 powi (floorLog2 a) \<le> a \<and> a < 2 powi (floorLog2 a + 1)"
  using floorLog2_ge1 floorLog2_lt1 by (cases "1 \<le> a") auto

lemma roundTiesToEven_error: "\<bar>of_int (roundTiesToEven r) - r\<bar> \<le> 1 / 2"
proof -
  let ?f = "\<lfloor>r\<rfloor>"
  have b: "of_int ?f \<le> r" "r < of_int ?f + 1" by linarith+
  consider "r - of_int ?f < 1 / 2" | "1 / 2 < r - of_int ?f" | "r - of_int ?f = 1 / 2"
    by linarith
  then show ?thesis
  proof cases
    case 1
    then have "roundTiesToEven r = ?f" by (simp add: roundTiesToEven_def)
    with 1 b show ?thesis by simp
  next
    case 2
    then have "roundTiesToEven r = ?f + 1" by (simp add: roundTiesToEven_def)
    with 2 b show ?thesis by simp
  next
    case 3
    then have "roundTiesToEven r = ?f \<or> roundTiesToEven r = ?f + 1"
      by (simp add: roundTiesToEven_def Let_def)
    with 3 show ?thesis by auto
  qed
qed

lemma roundTiesToEven_int [simp]: "roundTiesToEven (of_int n) = n"
  by (simp add: roundTiesToEven_def)

lemma sgn_abs_rat: "sgn x * \<bar>x\<bar> = (x::rat)"
  by (simp add: sgn_if)

text \<open>The rounding moves a number by at most the fraction \<open>2\<^sup>-\<^sup>5\<^sup>3\<close> of it.\<close>

lemma toDouble_error_nonzero:
  assumes "x \<noteq> 0"
  shows "\<bar>toDouble x - x\<bar> \<le> \<bar>x\<bar> / 2 ^ 53"
proof -
  define a where "a = \<bar>x\<bar>"
  define s where "s = (2::rat) powi (floorLog2 a - 52)"
  define m where "m = roundTiesToEven (a / s)"
  from assms have a: "0 < a" by (simp add: a_def)
  have s: "0 < s" by (simp add: s_def)
  have f: "toDouble x = sgn x * (of_int m * s)"
    using assms by (simp add: toDouble_def Let_def a_def s_def m_def)
  have x: "x = sgn x * a" by (simp add: a_def sgn_abs_rat)
  have "toDouble x - x = sgn x * (of_int m * s) - sgn x * a" using f x by simp
  then have "toDouble x - x = sgn x * (of_int m * s - a)" by (simp add: right_diff_distrib)
  then have "\<bar>toDouble x - x\<bar> = \<bar>sgn x\<bar> * \<bar>of_int m * s - a\<bar>" by (simp add: abs_mult)
  moreover have "\<bar>sgn x\<bar> = 1" using assms by (simp add: sgn_if)
  ultimately have e1: "\<bar>toDouble x - x\<bar> = \<bar>of_int m * s - a\<bar>" by simp
  have "of_int m * s - a = s * (of_int m - a / s)"
    using s by (simp add: right_diff_distrib)
  then have "\<bar>of_int m * s - a\<bar> = s * \<bar>of_int m - a / s\<bar>"
    using s by (simp add: abs_mult)
  also have "\<dots> \<le> s * (1 / 2)"
    using s roundTiesToEven_error [of "a / s"] unfolding m_def
    by (intro mult_left_mono) simp_all
  finally have e2: "\<bar>of_int m * s - a\<bar> \<le> s / 2" by simp
  have "s = 2 powi (floorLog2 a) / 2 powi 52" unfolding s_def by (rule power_int_diff) simp
  moreover have "2 powi (floorLog2 a) \<le> a" using floorLog2_bounds [OF a] by simp
  ultimately have "s \<le> a / 2 ^ 52" by (simp add: divide_right_mono)
  then have "s / 2 \<le> a / 2 ^ 53" by simp
  with e1 e2 show ?thesis unfolding a_def by linarith
qed

lemma toDouble_error: "\<bar>toDouble x - x\<bar> \<le> \<bar>x\<bar> / 2 ^ 53"
proof (cases "x = 0")
  case True
  then show ?thesis by (simp add: toDouble_def)
next
  case False
  then show ?thesis by (rule toDouble_error_nonzero)
qed

lemma toDouble_exact:
  assumes "x \<noteq> 0" and "\<bar>x\<bar> / (2 powi (floorLog2 \<bar>x\<bar> - 52)) = of_int n"
  shows "toDouble x = x"
proof -
  define s where "s = (2::rat) powi (floorLog2 \<bar>x\<bar> - 52)"
  have s: "0 < s" by (simp add: s_def)
  from assms(2) have q: "\<bar>x\<bar> / s = of_int n" by (simp add: s_def)
  then have "of_int n * s = \<bar>x\<bar>" using s by (simp add: field_simps)
  moreover have "toDouble x = sgn x * (of_int n * s)"
    using assms(1) q by (simp add: toDouble_def Let_def s_def)
  ultimately show ?thesis by (simp add: sgn_abs_rat)
qed

text \<open>Integers and halves of integers below \<open>2\<^sup>5\<^sup>2\<close> are doubles.\<close>

lemma toDouble_half_int:
  assumes "\<bar>k\<bar> < 2 ^ 53"
  shows "toDouble (of_int k / 2) = of_int k / 2"
proof (cases "k = 0")
  case True
  then show ?thesis by (simp add: toDouble_def)
next
  case False
  define x where "x = (of_int k / 2 :: rat)"
  define a where "a = \<bar>x\<bar>"
  from False have x0: "x \<noteq> 0" and a: "0 < a" by (simp_all add: x_def a_def)
  have ak: "a = of_int \<bar>k\<bar> / 2" by (simp add: a_def x_def)
  from assms have "(of_int \<bar>k\<bar> :: rat) < of_int (2 ^ 53)" by (simp only: of_int_less_iff)
  then have "a < 2 ^ 52" unfolding ak by simp
  with floorLog2_bounds [OF a] have "(2::rat) powi (floorLog2 a) < 2 powi 52" by simp
  then have lt: "floorLog2 a < 52" by (rule power_int_le_imp_less_exp [rotated]) simp_all
  define j where "j = nat (51 - floorLog2 a)"
  from lt have j: "floorLog2 a - 52 = - int (Suc j)" by (simp add: j_def)
  have "(2::rat) powi (- int (Suc j)) = 1 / 2 powi (int (Suc j))"
    by (rule power_int_minus_divide)
  also have "\<dots> = 1 / (2 * 2 ^ j)" by (simp only: power_int_of_nat power_Suc)
  finally have "(2::rat) powi (floorLog2 a - 52) = 1 / (2 * 2 ^ j)"
    by (simp only: j)
  then have "a / (2 powi (floorLog2 a - 52)) = of_int \<bar>k\<bar> / 2 * (2 * 2 ^ j)"
    unfolding ak by simp
  also have "\<dots> = of_int (\<bar>k\<bar> * 2 ^ j)" by simp
  finally have "\<bar>x\<bar> / (2 powi (floorLog2 \<bar>x\<bar> - 52)) = of_int (\<bar>k\<bar> * 2 ^ j)"
    by (simp add: a_def)
  from toDouble_exact [OF x0 this] show ?thesis by (simp add: x_def)
qed

lemma toDouble_int: "\<bar>n\<bar> < 2 ^ 52 \<Longrightarrow> toDouble (of_int n) = of_int n"
  using toDouble_half_int [of "2 * n"] by simp

text \<open>
  For an integer price and an integer percentage the computation in doubles gives what
  the exact computation gives: either the discount is a half of an integer and every
  step is exact, or the exact result is at least a hundredth away from the next half and
  the rounding errors are far smaller.
\<close>

lemma price_integers:
  fixes sp p :: int
  assumes p: "0 < p" and bound: "\<bar>sp * p\<bar> \<le> 2 ^ 40"
  shows "calculateFinalPrice (of_int sp) (Some (of_int p))
           = of_int (round (of_int sp - of_int sp * of_int p / 100 :: rat))"
proof -
  define x where "x = sp * p"
  define y where "y = (of_int x / 100 :: rat)"
  define y1 where "y1 = toDouble y"
  define z where "z = of_int sp - y1"
  define z1 where "z1 = toDouble z"
  define t where "t = of_int sp - y"
  have xb: "\<bar>x\<bar> \<le> 2 ^ 40" using bound by (simp add: x_def)
  have spb: "\<bar>sp\<bar> \<le> 2 ^ 40"
  proof -
    from p have "\<bar>sp\<bar> * 1 \<le> \<bar>sp\<bar> * \<bar>p\<bar>" by (intro mult_left_mono) simp_all
    with bound show ?thesis by (simp add: abs_mult)
  qed
  have flx: "toDouble (of_int sp * of_int p) = of_int x"
    using toDouble_int [of x] xb by (simp add: x_def)
  have c: "calculateFinalPrice (of_int sp) (Some (of_int p)) = of_int \<lfloor>z1 + 1 / 2\<rfloor>"
    using p by (simp add: calculateFinalPrice_def Math_round_def Let_def flx z1_def z_def y1_def y_def)
  have r: "round (of_int sp - of_int sp * of_int p / 100 :: rat) = \<lfloor>t + 1 / 2\<rfloor>"
    by (simp add: round_def t_def y_def x_def)
  have "\<lfloor>z1 + 1 / 2\<rfloor> = \<lfloor>t + 1 / 2\<rfloor>"
  proof (cases "50 dvd x")
    case True
    then obtain k where k: "x = 50 * k" ..
    with xb have kb: "\<bar>k\<bar> \<le> 2 ^ 40" by simp
    have yk: "y = of_int k / 2" by (simp add: y_def k)
    have "y1 = y" unfolding y1_def yk using kb by (intro toDouble_half_int) simp
    then have zk: "z = of_int (2 * sp - k) / 2" by (simp add: z_def yk diff_divide_distrib)
    have "\<bar>2 * sp - k\<bar> < 2 ^ 53" using kb spb by simp
    then have "z1 = z" unfolding z1_def zk by (rule toDouble_half_int)
    with \<open>y1 = y\<close> show ?thesis by (simp add: z_def t_def)
  next
    case False
    have yb: "\<bar>y\<bar> \<le> 2 ^ 40 / 100"
    proof -
      from xb have "(of_int \<bar>x\<bar> :: rat) \<le> of_int (2 ^ 40)" by (simp only: of_int_le_iff)
      then show ?thesis by (simp add: y_def)
    qed
    have e1: "\<bar>y1 - y\<bar> \<le> \<bar>y\<bar> / 2 ^ 53" unfolding y1_def by (rule toDouble_error)
    have e2: "\<bar>z1 - z\<bar> \<le> \<bar>z\<bar> / 2 ^ 53" unfolding z1_def by (rule toDouble_error)
    have sb: "\<bar>of_int sp :: rat\<bar> \<le> 2 ^ 40"
    proof -
      from spb have "(of_int \<bar>sp\<bar> :: rat) \<le> of_int (2 ^ 40)" by (simp only: of_int_le_iff)
      then show ?thesis by simp
    qed
    from e1 yb have e1': "\<bar>y1 - y\<bar> \<le> 1 / 8192" by simp
    have "\<bar>z\<bar> \<le> \<bar>of_int sp :: rat\<bar> + \<bar>y\<bar> + \<bar>y1 - y\<bar>" unfolding z_def by linarith
    with sb yb e1' have zb: "\<bar>z\<bar> \<le> 2 ^ 42" by simp
    from e2 zb have e2': "\<bar>z1 - z\<bar> \<le> 1 / 2048" by simp
    have "z1 - t = (z1 - z) - (y1 - y)" by (simp add: z_def t_def)
    then have "\<bar>z1 - t\<bar> \<le> \<bar>z1 - z\<bar> + \<bar>y1 - y\<bar>" by simp
    with e1' e2' have close: "\<bar>z1 - t\<bar> < 1 / 200" by linarith
    define N where "N = 100 * sp - x + 50"
    define q where "q = N div 100"
    define r where "r = N mod 100"
    have N: "N = 100 * q + r" by (simp add: q_def r_def)
    have nd: "\<not> 100 dvd N"
    proof
      assume "100 dvd N"
      then have "50 dvd N" by (rule dvd_trans [rotated]) simp
      moreover have "(50::int) dvd 100 * sp + 50" by simp
      ultimately have "50 dvd (100 * sp + 50) - N" by (rule dvd_diff [rotated])
      moreover have "(100 * sp + 50) - N = x" by (simp add: N_def)
      ultimately show False using False by simp
    qed
    have "0 \<le> r" "r < 100" by (simp_all add: r_def)
    moreover have "r \<noteq> 0" using nd by (simp add: r_def dvd_eq_mod_eq_0)
    ultimately have r1: "1 \<le> r" "r \<le> 99" by linarith+
    have tN: "t + 1 / 2 = of_int N / 100" by (simp add: t_def y_def N_def field_simps)
    have tq: "t + 1 / 2 = of_int q + of_int r / 100" unfolding tN N by (simp add: field_simps)
    from r1 have "(of_int 1 :: rat) \<le> of_int r" "(of_int r :: rat) \<le> of_int 99"
      by (simp_all only: of_int_le_iff)
    then have rr: "(1::rat) / 100 \<le> of_int r / 100" "(of_int r :: rat) / 100 \<le> 99 / 100" by simp_all
    have ft: "\<lfloor>t + 1 / 2\<rfloor> = q"
      using tq rr by (intro floor_unique) linarith+
    have fz: "\<lfloor>z1 + 1 / 2\<rfloor> = q"
      using tq rr close by (intro floor_unique) linarith+
    from ft fz show ?thesis by simp
  qed
  with c r show ?thesis by simp
qed

lemma price_none [simp]: "calculateFinalPrice sp None = sp"
  by (simp add: calculateFinalPrice_def)

lemma price_1000_10: "calculateFinalPrice 1000 (Some 10) = 900"
  by code_simp

subsection \<open>The totals\<close>

lemma totals_ok_recalculate [simp]:
  "totals_ok (recalculate c)" "totals_ok ((recalculate c)\<lparr>updatedAt := n\<rparr>)"
  by (simp_all add: totals_ok_def recalculate_def sumQuantity_sum sumPrice_sum)

lemma totals_ok_emptyCart [simp]: "totals_ok (emptyCart uid now)"
  by (simp add: totals_ok_def emptyCart_def)

lemma totals_ok_updatedAt [simp]: "totals_ok (c\<lparr>updatedAt := n\<rparr>) = totals_ok c"
  by (simp add: totals_ok_def)


lemma store_ok_upd [simp]:
  "store_ok (w\<lparr>calls := cs\<rparr>) = store_ok w"
  "store_ok (w\<lparr>stock := s\<rparr>) = store_ok w"
  by (simp_all add: store_ok_def)





lemma cache_reserve: "reserve svc w pid q = (r, w1) \<Longrightarrow> cache w1 = cache w"
  by (auto simp: reserve_def split: prod.splits)

lemma cache_release: "release svc w pid q = (r, w1) \<Longrightarrow> cache w1 = cache w"
  by (auto simp: release_def split: prod.splits)























subsection \<open>The effective price\<close>

lemma addToCart_example:
  assumes "cache w (getCartKey uid) = None" "products w pid = Some p"
    "sellingPrice p = 1000" "p_salePercentage p = Some 10"
    "reserveStock svc (stock w) pid 2 = (Inr True, s)"
  shows "\<exists>c w'. addToCart svc w uid pid 2 now = (Inr c, w') \<and> map price (items c) = [900]
           \<and> map quantity (items c) = [2] \<and> totalPrice c = 1800 \<and> totalItems c = 2"
  using assms
  apply (simp add: addToCart_def cache_get_def cache_set_def findOne_def Let_def)
  apply (simp add: getCart_def cache_get_def)
  apply (simp add: reserve_def emptyCart_def)
  apply (simp add: price_1000_10 newItem_def recalculate_def
      sumQuantity_def sumPrice_def or_zero_def Let_def)
  done

text \<open>
  C6, as amended. The effective price is the selling price when the sale percentage is
  null, zero or negative. When the percentage is positive it is \<^verbatim>\<open>Math.round\<close> of the
  selling price less that percentage of it, computed in doubles: the product, the
  quotient by 100 and the difference are each rounded to the nearest double. For an
  integer price and an integer percentage whose product is at most \<open>2\<^sup>4\<^sup>0\<close> in absolute
  value this is the exact value rounded to the nearest integer. For a selling price of
  1000 and a sale of 10 percent it is 900, and adding 2 units of such a product to an
  empty cart gives one item of price 900, \<^verbatim>\<open>totalPrice\<close> 1800 and \<^verbatim>\<open>totalItems\<close> 2.
\<close>

theorem effective_price:
  "(\<forall>sp. calculateFinalPrice sp None = sp) \<and>
   (\<forall>sp p. p \<le> 0 \<longrightarrow> calculateFinalPrice sp (Some p) = sp) \<and>
   (\<forall>sp p. 0 < p \<longrightarrow>
      calculateFinalPrice sp (Some p)
        = of_int \<lfloor>toDouble (sp - toDouble (toDouble (sp * p) / 100)) + 1 / 2\<rfloor>) \<and>
   (\<forall>(sp :: int) (p :: int). 0 < p \<and> \<bar>sp * p\<bar> \<le> 2 ^ 40 \<longrightarrow>
      calculateFinalPrice (of_int sp) (Some (of_int p))
        = of_int (round (of_int sp - of_int sp * of_int p / 100 :: rat))) \<and>
   calculateFinalPrice 1000 (Some 10) = 900 \<and>
   (\<forall>(svc :: 'i inventoryService) (w :: 'i world) uid pid p now s.
      cache w (getCartKey uid) = None \<and> products w pid = Some p \<and>
      sellingPrice p = 1000 \<and> p_salePercentage p = Some 10 \<and>
      reserveStock svc (stock w) pid 2 = (Inr True, s) \<longrightarrow>
      (\<exists>c w'. addToCart svc w uid pid 2 now = (Inr c, w') \<and> map price (items c) = [900]
           \<and> map quantity (items c) = [2] \<and> totalPrice c = 1800 \<and> totalItems c = 2))"
proof (intro conjI allI impI)
  fix sp :: rat
  show "calculateFinalPrice sp None = sp" by (simp add: calculateFinalPrice_def)
next
  fix sp p :: rat
  assume "p \<le> 0"
  then show "calculateFinalPrice sp (Some p) = sp" by (simp add: calculateFinalPrice_def)
next
  fix sp p :: rat
  assume "0 < p"
  then show "calculateFinalPrice sp (Some p)
        = of_int \<lfloor>toDouble (sp - toDouble (toDouble (sp * p) / 100)) + 1 / 2\<rfloor>"
    by (simp add: calculateFinalPrice_def Math_round_def Let_def)
next
  fix sp p :: int
  assume "0 < p \<and> \<bar>sp * p\<bar> \<le> 2 ^ 40"
  then show "calculateFinalPrice (of_int sp) (Some (of_int p))
        = of_int (round (of_int sp - of_int sp * of_int p / 100 :: rat))"
    using price_integers [of p sp] by simp
next
  show "calculateFinalPrice 1000 (Some 10) = 900" by (rule price_1000_10)
next
  fix svc :: "'i inventoryService" and w :: "'i world" and uid pid p now s
  assume a: "cache w (getCartKey uid) = None \<and> products w pid = Some p \<and>
      sellingPrice p = 1000 \<and> p_salePercentage p = Some 10 \<and>
      reserveStock svc (stock w) pid 2 = (Inr True, s)"
  show "\<exists>c w'. addToCart svc w uid pid 2 now = (Inr c, w') \<and> map price (items c) = [900]
           \<and> map quantity (items c) = [2] \<and> totalPrice c = 1800 \<and> totalItems c = 2"
    by (rule addToCart_example [where p = p and s = s]) (use a in simp_all)
qed

theorem effective_price_witness:
  "calculateFinalPrice 1000 (Some (- 5)) = 1000 \<and>
   calculateFinalPrice (of_int 1999) (Some (of_int 15)) = 1699 \<and>
   calculateFinalPrice 1000 (Some 10) = 900 \<and>
   (\<exists>c w'. addToCart counterInventory (freshWorld (\<lambda>pid. 5)) ''U1'' ''P1'' 2 0 = (Inr c, w')
      \<and> map price (items c) = [900] \<and> map quantity (items c) = [2]
      \<and> totalPrice c = 1800 \<and> totalItems c = 2)"
proof -
  have h: "cache (freshWorld (\<lambda>pid. 5::int)) (getCartKey ''U1'') = None \<and>
      products (freshWorld (\<lambda>pid. 5::int)) ''P1''
        = Some \<lparr>p_productId = ''P1'', p_productName = ''Cleanser'', sellingPrice = 1000,
                 p_salePercentage = Some 10\<rparr> \<and>
      sellingPrice \<lparr>p_productId = ''P1'', p_productName = ''Cleanser'', sellingPrice = 1000,
                 p_salePercentage = Some 10\<rparr> = 1000 \<and>
      p_salePercentage \<lparr>p_productId = ''P1'', p_productName = ''Cleanser'', sellingPrice = 1000,
                 p_salePercentage = Some 10\<rparr> = Some 10 \<and>
      reserveStock counterInventory (stock (freshWorld (\<lambda>pid. 5::int))) ''P1'' 2
        = (Inr True, (\<lambda>pid. 5)(''P1'' := 3))"
    by (simp add: freshWorld_def exampleProducts_def counterInventory_def)
  have neg: "(- 5 :: rat) \<le> 0" by simp
  have int: "(0::int) < 15 \<and> \<bar>1999 * 15 :: int\<bar> \<le> 2 ^ 40" by simp
  have rd: "round (of_int 1999 - of_int 1999 * of_int 15 / 100 :: rat) = 1699"
    by (simp add: round_def floor_eq_iff)
  note c2 = effective_price [THEN conjunct2, THEN conjunct1, rule_format, OF neg]
  note c4 = effective_price [THEN conjunct2, THEN conjunct2, THEN conjunct2, THEN conjunct1,
      rule_format, OF int]
  note c5 = effective_price [THEN conjunct2, THEN conjunct2, THEN conjunct2, THEN conjunct2,
      THEN conjunct1]
  note c6 = effective_price [THEN conjunct2, THEN conjunct2, THEN conjunct2, THEN conjunct2,
      THEN conjunct2, rule_format, OF h]
  have a: "calculateFinalPrice 1000 (Some (- 5)) = 1000" by (rule c2)
  have b: "calculateFinalPrice (of_int 1999) (Some (of_int 15)) = 1699"
    using c4 rd by simp
  from a b c5 c6 [of 0] show ?thesis by (intro conjI)
qed

text \<open>
  C6 as stated fails, since the exact value and the value computed in doubles can fall
  on different sides of a half. The percentage 0.4 is the double
  3602879701896397 / \<open>2\<^sup>5\<^sup>3\<close>; for a price of 125 the product rounds to 50, so the code
  rounds 124.5 up to 125, where the exact value, just below 124.5, rounds to 124. With
  the percentage 64.9 on a price of 500 the code gives 175 and the formula on the
  decimal numbers gives 176.
\<close>

theorem effective_price_not_exact:
  "toDouble (2 / 5) = 3602879701896397 / 9007199254740992 \<and>
   calculateFinalPrice 125 (Some (toDouble (2 / 5))) = 125 \<and>
   round (125 - 125 * toDouble (2 / 5) / 100) = 124 \<and>
   calculateFinalPrice 500 (Some (toDouble (649 / 10))) = 175 \<and>
   round (500 - 500 * (649 / 10) / 100 :: rat) = 176"
  by code_simp

subsection \<open>Reading the cart\<close>

lemma getCart_world: "snd (getCart w uid now) = w\<lparr>calls := calls w @ [CacheGet (getCartKey uid)]\<rparr>"
  by (simp add: getCart_def cache_get_def split: option.splits cached.splits)

lemma getCart_fst_cong:
  "cache w1 (getCartKey uid) = cache w (getCartKey uid) \<Longrightarrow> fst (getCart w1 uid now) = fst (getCart w uid now)"
  by (simp add: getCart_def cache_get_def split: option.splits cached.splits)

lemma getCart_eq: "getCart w uid now = (fst (getCart w uid now), w\<lparr>calls := calls w @ [CacheGet (getCartKey uid)]\<rparr>)"
  using getCart_world [of w uid now] by (simp add: prod_eq_iff)

lemma mixedWorld_getCart: "fst (getCart (mixedWorld s) ''U2'' now) = CartValue mixedCart"
  by (simp add: getCart_def cache_get_def mixedWorld_def)

lemma mixedWorld_removeSelected:
  "\<exists>c1 w1. removeSelectedItems (mixedWorld s) ''U2'' now = (Inr c1, w1)"
  by (simp add: removeSelectedItems_def getCart_def cache_get_def mixedWorld_def Let_def)

subsection \<open>Validation comes first in \<^verbatim>\<open>updateCartItem\<close>\<close>

text \<open>
  C10. \<^verbatim>\<open>updateCartItem\<close> with a quantity of zero or less fails with the bad-request
  exception of the quantity check whatever the cache holds (no cart, or a cart without
  the product): the check comes before the cart is loaded, so it wins over not-found,
  and the world is left as it was: no cache read or write and no inventory call.
\<close>

theorem updateCartItem_rejects_first:
  "q \<le> 0 \<Longrightarrow>
     updateCartItem svc w uid pid q now
       = (Inl (BadRequestException ''Quantity must be greater than 0''), w)"
  by (simp add: updateCartItem_def)

theorem updateCartItem_rejects_first_witness:
  "(0::int) \<le> 0 \<and>
   updateCartItem counterInventory (freshWorld (\<lambda>pid. 5)) ''U1'' ''P9'' 0 40
     = (Inl (BadRequestException ''Quantity must be greater than 0''), freshWorld (\<lambda>pid. 5)) \<and>
   calls (freshWorld (\<lambda>pid. 5::int)) = [] \<and>
   fst (updateCartItem counterInventory (freshWorld (\<lambda>pid. 5)) ''U1'' ''P9'' 1 40)
     = Inl (NotFoundException ''Product with ID P9 not found in cart'')"
proof -
  have z: "(0::int) \<le> 0" by simp
  have nf: "fst (updateCartItem counterInventory (freshWorld (\<lambda>pid. 5)) ''U1'' ''P9'' 1 40)
     = Inl (NotFoundException ''Product with ID P9 not found in cart'')"
    by (simp add: updateCartItem_def getCart_def cache_get_def freshWorld_def emptyCart_def Let_def)
  have c: "calls (freshWorld (\<lambda>pid. 5::int)) = []" by (simp add: freshWorld_def)
  from z updateCartItem_rejects_first [OF z, of counterInventory "freshWorld (\<lambda>pid. 5)" "''U1''" "''P9''" 40]
    c nf show ?thesis by simp
qed

subsection \<open>Reservation in \<^verbatim>\<open>addToCart\<close>\<close>

text \<open>
  C2. When the product exists and the cart can be loaded, \<^verbatim>\<open>addToCart\<close> makes one
  reservation call, for the quantity being added (not for the resulting quantity of the
  line). When the reservation is refused it fails with the out-of-stock exception, makes
  no further call, and the cache holds under every cart key what it held before.
\<close>

theorem addToCart_reserves_increment:
  assumes "products w pid = Some p" and "fst (getCart w uid now) = CartValue c"
    and "reserveStock svc (stock w) pid q = (res, st)"
  shows "\<exists>r w1. addToCart svc w uid pid q now = (r, w1) \<and>
           calls w1 = calls w @
             [CacheSet (testKey now) (TextValue ''test'') 10000, CacheGet (testKey now),
              FindOne pid, CacheGet (getCartKey uid), ReserveStock pid q] @
             (case r of Inr c1 \<Rightarrow> [CacheSet (getCartKey uid) (CartValue c1) 86400000] | Inl e \<Rightarrow> []) \<and>
           (res = Inr False \<longrightarrow>
              r = Inl (BadRequestException outOfStockMessage) \<and>
              (\<forall>u. cache w1 (getCartKey u) = cache w (getCartKey u)))"
proof -
  define w3 where "w3 = w\<lparr>cache := (cache w)(testKey now \<mapsto> TextValue ''test''),
     calls := calls w @ [CacheSet (testKey now) (TextValue ''test'') 10000, CacheGet (testKey now), FindOne pid]\<rparr>"
  have g: "getCart w3 uid now = (CartValue c, w3\<lparr>calls := calls w3 @ [CacheGet (getCartKey uid)]\<rparr>)"
    using getCart_eq [of w3 uid now] getCart_fst_cong [of w3 uid w now] assms(2)
    by (simp add: w3_def)
  show ?thesis
    using assms(1,3) g
    by (cases res)
      (auto simp: addToCart_def cache_get_def cache_set_def findOne_def Let_def w3_def reserve_def)
qed

theorem addToCart_reserves_increment_witness:
  "\<exists>w1. addToCart counterInventory (cartWorld (\<lambda>pid. 1)) ''U1'' ''P1'' 3 50
           = (Inl (BadRequestException outOfStockMessage), w1) \<and>
         calls w1 =
           [CacheSet (testKey 50) (TextValue ''test'') 10000, CacheGet (testKey 50),
            FindOne ''P1'', CacheGet (getCartKey ''U1''), ReserveStock ''P1'' 3] \<and>
         cache w1 (getCartKey ''U1'') = Some (CartValue exampleCart)"
proof -
  have p: "products (cartWorld (\<lambda>pid. 1::int)) ''P1''
        = Some \<lparr>p_productId = ''P1'', p_productName = ''Cleanser'', sellingPrice = 1000,
                 p_salePercentage = Some 10\<rparr>"
    by (simp add: cartWorld_def exampleProducts_def)
  have g: "fst (getCart (cartWorld (\<lambda>pid. 1::int)) ''U1'' 50) = CartValue exampleCart"
    by (simp add: getCart_def cache_get_def cartWorld_def)
  have r: "reserveStock counterInventory (stock (cartWorld (\<lambda>pid. 1::int))) ''P1'' 3
        = (Inr False, \<lambda>pid. 1)"
    by (simp add: counterInventory_def cartWorld_def)
  have c0: "calls (cartWorld (\<lambda>pid. 1::int)) = []"
    and k0: "cache (cartWorld (\<lambda>pid. 1::int)) (getCartKey ''U1'') = Some (CartValue exampleCart)"
    by (simp_all add: cartWorld_def)
  from addToCart_reserves_increment [OF p g r] c0 k0
  show ?thesis by auto
qed

subsection \<open>Selected items\<close>



text \<open>
  C9. The items that \<^verbatim>\<open>getSelectedItems\<close> returns and the items that
  \<^verbatim>\<open>removeSelectedItems\<close> keeps partition the items of the cart: each item is in
  exactly one of the two lists, and an item whose flag is absent is not selected and is
  kept.
\<close>

theorem selected_partition:
  assumes "fst (getCart w uid now) = CartValue c"
    and "removeSelectedItems w uid now = (Inr c1, w1)"
  shows "mset (getSelectedItems c) + mset (items c1) = mset (items c) \<and>
         set (getSelectedItems c) \<inter> set (items c1) = {} \<and>
         set (getSelectedItems c) \<union> set (items c1) = set (items c) \<and>
         (\<forall>item \<in> set (items c). selected item = None \<longrightarrow>
            item \<notin> set (getSelectedItems c) \<and> item \<in> set (items c1))"
proof -
  have g: "getCart w uid now = (CartValue c, w\<lparr>calls := calls w @ [CacheGet (getCartKey uid)]\<rparr>)"
    using getCart_eq [of w uid now] assms(1) by simp
  from assms(2) have its: "items c1 = filter (\<lambda>item. selected item \<noteq> Some True) (items c)"
    by (auto simp: removeSelectedItems_def g Let_def recalculate_def)
  show ?thesis
    unfolding its getSelectedItems_def by auto
qed

theorem selected_partition_witness:
  "\<exists>c1 w1. removeSelectedItems (mixedWorld (\<lambda>pid::string. 0::int)) ''U2'' 70 = (Inr c1, w1) \<and>
      getSelectedItems mixedCart = [itemA] \<and> items c1 = [itemB, itemC] \<and>
      mset (getSelectedItems mixedCart) + mset (items c1) = mset (items mixedCart) \<and>
      set (getSelectedItems mixedCart) \<inter> set (items c1) = {} \<and>
      selected itemC = None \<and> itemC \<notin> set (getSelectedItems mixedCart) \<and> itemC \<in> set (items c1)"
proof -
  obtain c1 w1 where r: "removeSelectedItems (mixedWorld (\<lambda>pid::string. 0::int)) ''U2'' 70 = (Inr c1, w1)"
    using mixedWorld_removeSelected [of "\<lambda>pid::string. 0::int" 70] by blast
  note p = selected_partition [OF mixedWorld_getCart r]
  have sel: "getSelectedItems mixedCart = [itemA]"
    by (simp add: getSelectedItems_def mixedCart_def itemA_def itemB_def itemC_def)
  have inC: "itemC \<in> set (items mixedCart)" "selected itemC = None"
    by (simp_all add: mixedCart_def itemC_def)
  from p inC have c3: "itemC \<notin> set (getSelectedItems mixedCart) \<and> itemC \<in> set (items c1)"
    by blast
  have i2: "items c1 = [itemB, itemC]"
    using r
    by (simp add: removeSelectedItems_def getCart_def cache_get_def mixedWorld_def Let_def
        recalculate_def mixedCart_def itemA_def itemB_def itemC_def prod_eq_iff)
      (auto simp: itemB_def itemC_def)
  from p r sel i2 c3 inC show ?thesis by blast
qed

subsection \<open>One line per product\<close>

text \<open>
  That the carts of the cache have one line per product is kept by every mutation, so it
  holds along every sequence of mutations that starts from an empty cache.
\<close>

lemma store_lines_ok_upd [simp]:
  "store_lines_ok (w\<lparr>calls := cs\<rparr>) = store_lines_ok w"
  "store_lines_ok (w\<lparr>stock := s\<rparr>) = store_lines_ok w"
  by (simp_all add: store_lines_ok_def)

lemma store_lines_ok_cong: "cache w1 = cache w \<Longrightarrow> store_lines_ok w1 = store_lines_ok w"
  by (simp add: store_lines_ok_def)

lemma store_lines_ok_set_cart:
  "store_lines_ok w \<Longrightarrow> lines_ok c \<Longrightarrow> store_lines_ok (cache_set w k (CartValue c) ttl)"
  by (simp add: store_lines_ok_def cache_set_def)

lemma store_lines_ok_set_text: "store_lines_ok w \<Longrightarrow> store_lines_ok (cache_set w k (TextValue s) ttl)"
  by (simp add: store_lines_ok_def cache_set_def)

lemma store_lines_ok_del: "store_lines_ok w \<Longrightarrow> store_lines_ok (cache_del w k)"
  by (simp add: store_lines_ok_def cache_del_def)

lemma store_lines_ok_saveOrDelete:
  "store_lines_ok w \<Longrightarrow> lines_ok c \<Longrightarrow> store_lines_ok (saveOrDelete w uid c)"
  by (simp add: saveOrDelete_def store_lines_ok_set_cart store_lines_ok_del)

lemma lines_ok_simps [simp]:
  "lines_ok (emptyCart uid now)"
  "lines_ok (c\<lparr>updatedAt := n\<rparr>) = lines_ok c"
  "lines_ok (recalculate c) = lines_ok c"
  by (simp_all add: lines_ok_def emptyCart_def recalculate_def)

lemma getCart_lines_ok:
  "store_lines_ok w \<Longrightarrow> getCart w uid now = (v, w1) \<Longrightarrow>
     store_lines_ok w1 \<and> (\<forall>c. v = CartValue c \<longrightarrow> lines_ok c)"
  by (auto simp: getCart_def cache_get_def store_lines_ok_def split: option.splits cached.splits if_splits)

lemma map_productId_update:
  "i < length xs \<Longrightarrow> productId y = productId (xs ! i) \<Longrightarrow>
     map productId (xs[i := y]) = map productId xs"
  by (simp add: map_update list_update_same_conv)

lemma lines_ok_add_existing:
  assumes "lines_ok c" "- 1 < findIndex (\<lambda>item. productId item = pid) (items c)"
  shows "lines_ok (c\<lparr>items :=
           (items c)[nat (findIndex (\<lambda>item. productId item = pid) (items c)) :=
                   (items c ! nat (findIndex (\<lambda>item. productId item = pid) (items c)))
                     \<lparr>price := a, originalPrice := b, salePercentage := d,
                      quantity := e\<rparr>]\<rparr>)"
proof -
  from assms(2) have "findIndex (\<lambda>item. productId item = pid) (items c) \<noteq> - 1" by simp
  from findIndex_found [OF this] assms(1) show ?thesis
    by (simp add: lines_ok_def map_productId_update)
qed

lemma lines_ok_add_new:
  assumes "lines_ok c" "\<not> - 1 < findIndex (\<lambda>item. productId item = pid) (items c)"
  shows "lines_ok (c\<lparr>items := items c @ [newItem pid p f q now]\<rparr>)"
proof -
  from assms(2) findIndex_ge [of "\<lambda>item. productId item = pid" "items c"]
  have "findIndex (\<lambda>item. productId item = pid) (items c) = - 1" by arith
  then have "pid \<notin> set (map productId (items c))" by (auto simp: findIndex_none)
  with assms(1) show ?thesis by (simp add: lines_ok_def newItem_def)
qed

lemma lines_ok_quantity:
  "lines_ok c \<Longrightarrow> i < length (items c) \<Longrightarrow>
     lines_ok (c\<lparr>items := (items c)[i := (items c ! i)\<lparr>quantity := q\<rparr>]\<rparr>)"
  by (simp add: lines_ok_def map_productId_update)

lemma distinct_splice1: "distinct ys \<Longrightarrow> distinct (splice1 i ys)"
proof (induction ys arbitrary: i)
  case Nil
  then show ?case by (simp add: splice1_def)
next
  case (Cons y ys)
  show ?case
  proof (cases i)
    case 0
    with Cons.prems show ?thesis by (simp add: splice1_def)
  next
    case (Suc j)
    from Cons.prems have "distinct (splice1 j ys)" by (simp add: Cons.IH)
    moreover have "set (splice1 j ys) \<subseteq> set ys"
      by (auto simp: splice1_def dest: in_set_takeD in_set_dropD)
    ultimately show ?thesis using Cons.prems Suc by (auto simp: splice1_def)
  qed
qed

lemma map_splice1: "map f (splice1 i xs) = splice1 i (map f xs)"
  by (simp add: splice1_def take_map drop_map)

lemma lines_ok_splice: "lines_ok c \<Longrightarrow> lines_ok (c\<lparr>items := splice1 i (items c)\<rparr>)"
  by (simp add: lines_ok_def map_splice1 distinct_splice1)

lemma lines_ok_filter: "lines_ok c \<Longrightarrow> lines_ok (c\<lparr>items := filter P (items c)\<rparr>)"
  by (simp add: lines_ok_def distinct_map_filter)

lemma map_productId_update_found:
  "map productId (update_found P (selected_update g) xs) = map productId xs"
  by (induction xs) simp_all

lemma lines_ok_select_one:
  "lines_ok c \<Longrightarrow> lines_ok (c\<lparr>items := update_found P (selected_update g) (items c)\<rparr>)"
  by (simp add: lines_ok_def map_productId_update_found)

lemma lines_ok_select_all:
  "lines_ok c \<Longrightarrow> lines_ok (c\<lparr>items := map (selected_update g) (items c)\<rparr>)"
  by (simp add: lines_ok_def comp_def)

lemma store_lines_ok_reserve:
  "store_lines_ok w \<Longrightarrow> reserve svc w pid q = (r, w1) \<Longrightarrow> store_lines_ok w1"
  using cache_reserve store_lines_ok_cong by blast

lemma store_lines_ok_release:
  "store_lines_ok w \<Longrightarrow> release svc w pid q = (r, w1) \<Longrightarrow> store_lines_ok w1"
  using cache_release store_lines_ok_cong by blast

lemma store_lines_ok_adjust:
  "store_lines_ok w \<Longrightarrow> adjustReservation svc w pid old d = (r, w1) \<Longrightarrow> store_lines_ok w1"
  by (auto simp: adjustReservation_def split: prod.splits sum.splits if_splits
      dest: store_lines_ok_reserve store_lines_ok_release)

lemma addToCart_lines_ok:
  assumes "store_lines_ok w" "addToCart svc w uid pid q now = (r, w1)"
  shows "store_lines_ok w1 \<and> (\<forall>c. r = Inr c \<longrightarrow> lines_ok c)"
  using assms
  by (auto simp: addToCart_def Let_def cache_get_def findOne_def store_lines_ok_set_text
      store_lines_ok_set_cart lines_ok_add_existing lines_ok_add_new
      split: prod.splits option.splits cached.splits sum.splits if_splits
      dest!: getCart_lines_ok [rotated] store_lines_ok_reserve [rotated])

lemma updateCartItem_lines_ok:
  assumes "store_lines_ok w" "updateCartItem svc w uid pid q now = (r, w1)"
  shows "store_lines_ok w1 \<and> (\<forall>c. r = Inr c \<longrightarrow> lines_ok c)"
  using assms
  by (auto simp: updateCartItem_def Let_def store_lines_ok_set_cart lines_ok_quantity
      findIndex_found
      split: prod.splits option.splits cached.splits sum.splits if_splits
      dest!: getCart_lines_ok [rotated] store_lines_ok_adjust [rotated])

lemma removeFromCart_lines_ok:
  assumes "store_lines_ok w" "removeFromCart svc w uid pid now = (r, w1)"
  shows "store_lines_ok w1 \<and> (\<forall>c. r = Inr c \<longrightarrow> lines_ok c)"
  using assms
  by (auto simp: removeFromCart_def Let_def store_lines_ok_saveOrDelete lines_ok_splice
      split: prod.splits option.splits cached.splits sum.splits if_splits
      dest!: getCart_lines_ok [rotated] store_lines_ok_release [rotated])

lemma toggleSelectItem_lines_ok:
  assumes "store_lines_ok w" "toggleSelectItem w uid pid sel now = (r, w1)"
  shows "store_lines_ok w1 \<and> (\<forall>c. r = Inr c \<longrightarrow> lines_ok c)"
  using assms
  by (auto simp: toggleSelectItem_def Let_def store_lines_ok_set_cart lines_ok_select_one
      split: prod.splits option.splits cached.splits sum.splits if_splits
      dest!: getCart_lines_ok [rotated])

lemma toggleSelectAll_lines_ok:
  assumes "store_lines_ok w" "toggleSelectAll w uid sel now = (r, w1)"
  shows "store_lines_ok w1 \<and> (\<forall>c. r = Inr c \<longrightarrow> lines_ok c)"
  using assms
  by (auto simp: toggleSelectAll_def Let_def store_lines_ok_set_cart lines_ok_select_all
      split: prod.splits option.splits cached.splits sum.splits if_splits
      dest!: getCart_lines_ok [rotated])

lemma removeSelectedItems_lines_ok:
  assumes "store_lines_ok w" "removeSelectedItems w uid now = (r, w1)"
  shows "store_lines_ok w1 \<and> (\<forall>c. r = Inr c \<longrightarrow> lines_ok c)"
  using assms
  by (auto simp: removeSelectedItems_def Let_def store_lines_ok_saveOrDelete lines_ok_filter
      split: prod.splits option.splits cached.splits sum.splits if_splits
      dest!: getCart_lines_ok [rotated])

lemma removeItemsByProductIds_lines_ok:
  assumes "store_lines_ok w" "removeItemsByProductIds w uid pids now = (r, w1)"
  shows "store_lines_ok w1 \<and> (\<forall>c. r = Inr c \<longrightarrow> lines_ok c)"
  using assms
  by (auto simp: removeItemsByProductIds_def Let_def store_lines_ok_set_cart store_lines_ok_del
      lines_ok_filter
      simp del: length_0_conv
      split: prod.splits option.splits cached.splits sum.splits if_splits
      dest!: getCart_lines_ok [rotated])

lemma perform_lines_ok:
  assumes "store_lines_ok w" "perform svc w m now = (r, w1)"
  shows "store_lines_ok w1 \<and> (\<forall>c. r = Inr c \<longrightarrow> lines_ok c)"
proof (cases m)
  case (AddToCart uid pid q)
  with assms show ?thesis using addToCart_lines_ok [of w svc uid pid q now r w1] by simp
next
  case (UpdateCartItem uid pid q)
  with assms show ?thesis using updateCartItem_lines_ok [of w svc uid pid q now r w1] by simp
next
  case (RemoveFromCart uid pid)
  with assms show ?thesis using removeFromCart_lines_ok [of w svc uid pid now r w1] by simp
next
  case (ToggleSelectItem uid pid sel)
  with assms show ?thesis using toggleSelectItem_lines_ok [of w uid pid sel now r w1] by simp
next
  case (ToggleSelectAll uid sel)
  with assms show ?thesis using toggleSelectAll_lines_ok [of w uid sel now r w1] by simp
next
  case (RemoveSelectedItems uid)
  with assms show ?thesis using removeSelectedItems_lines_ok [of w uid now r w1] by simp
next
  case (RemoveItemsByProductIds uid pids)
  with assms show ?thesis using removeItemsByProductIds_lines_ok [of w uid pids now r w1] by simp
qed

lemma one_line_per_product:
  "store_lines_ok w \<Longrightarrow> (r, w1) \<in> set (run svc w ms) \<Longrightarrow>
     store_lines_ok w1 \<and> (\<forall>c. r = Inr c \<longrightarrow> lines_ok c)"
proof (induction ms arbitrary: w)
  case Nil
  then show ?case by simp
next
  case (Cons step ms)
  obtain m now where step: "step = (m, now)" by (cases step)
  obtain r0 w0 where p: "perform svc w m now = (r0, w0)" by (cases "perform svc w m now")
  from perform_lines_ok [OF Cons.prems(1) p]
  have ok0: "store_lines_ok w0" and res0: "\<forall>c. r0 = Inr c \<longrightarrow> lines_ok c" by simp_all
  from Cons.prems(2) step p
  consider "(r, w1) = (r0, w0)" | "(r, w1) \<in> set (run svc w0 ms)" by auto
  then show ?case
  proof cases
    case 1
    with ok0 res0 show ?thesis by simp
  next
    case 2
    from Cons.IH [OF ok0 2] show ?thesis .
  qed
qed

subsection \<open>Adding a product again\<close>

lemma update_distinct_map:
  "distinct (map f xs) \<Longrightarrow> i < length xs \<Longrightarrow> f (xs ! i) = k \<Longrightarrow>
     xs[i := g (xs ! i)] = map (\<lambda>x. if f x = k then g x else x) xs"
proof (induction xs arbitrary: i)
  case Nil
  then show ?case by simp
next
  case (Cons x xs)
  show ?case
  proof (cases i)
    case 0
    with Cons.prems have "f x = k" by simp
    from Cons.prems(1) have "f x \<notin> f ` set xs" by simp
    with \<open>f x = k\<close> have "\<forall>y \<in> set xs. f y \<noteq> k" by (metis imageI)
    then have "map (\<lambda>x. if f x = k then g x else x) xs = xs"
      by (simp add: map_idI)
    with 0 \<open>f x = k\<close> show ?thesis by simp
  next
    case (Suc j)
    with Cons.prems have j: "j < length xs" "f (xs ! j) = k" "distinct (map f xs)" by auto
    then have "xs ! j \<in> set xs" by simp
    with Cons.prems(1) j(2) have "f x \<noteq> k" by force
    with Suc Cons.IH [OF j(3) j(1) j(2)] show ?thesis by simp
  qed
qed

lemma filter_distinct_key:
  "distinct (map f xs) \<Longrightarrow> i < length xs \<Longrightarrow> f (xs ! i) = k \<Longrightarrow>
     filter (\<lambda>x. f x = k) xs = [xs ! i]"
proof (induction xs arbitrary: i)
  case Nil
  then show ?case by simp
next
  case (Cons x xs)
  show ?case
  proof (cases i)
    case 0
    with Cons.prems have "f x = k" by simp
    from Cons.prems(1) have "f x \<notin> f ` set xs" by simp
    with \<open>f x = k\<close> have "\<forall>y \<in> set xs. f y \<noteq> k" by (metis imageI)
    then have "filter (\<lambda>x. f x = k) xs = []" by (simp add: filter_empty_conv)
    with 0 \<open>f x = k\<close> show ?thesis by simp
  next
    case (Suc j)
    with Cons.prems have j: "j < length xs" "f (xs ! j) = k" "distinct (map f xs)" by auto
    then have "xs ! j \<in> set xs" by simp
    with Cons.prems(1) j(2) have "f x \<noteq> k" by force
    with Suc Cons.IH [OF j(3) j(1) j(2)] show ?thesis by simp
  qed
qed

lemma filter_map_key:
  "(\<And>x. f (g x) = f x) \<Longrightarrow>
     filter (\<lambda>x. f x = k) (map (\<lambda>x. if f x = k then g x else x) xs)
       = map g (filter (\<lambda>x. f x = k) xs)"
  by (induction xs) simp_all

lemma filter_map_other:
  "(\<And>x. f (g x) = f x) \<Longrightarrow>
     filter (\<lambda>x. f x \<noteq> k) (map (\<lambda>x. if f x = k then g x else x) xs)
       = filter (\<lambda>x. f x \<noteq> k) xs"
  by (induction xs) simp_all

lemma addToCart_success:
  assumes "products w pid = Some p" and "fst (getCart w uid now) = CartValue c"
    and "reserveStock svc (stock w) pid q = (Inr True, st)"
  shows "\<exists>c1 w1. addToCart svc w uid pid q now = (Inr c1, w1) \<and>
           cache w1 (getCartKey uid) = Some (CartValue c1) \<and>
           items c1 =
             (let i = findIndex (\<lambda>item. productId item = pid) (items c)
              in if i > - 1 then (items c)[nat i := reprice p q (items c ! nat i)]
                 else items c @ [newItem pid p (calculateFinalPrice (sellingPrice p) (p_salePercentage p)) q now])"
proof -
  define w3 where "w3 = w\<lparr>cache := (cache w)(testKey now \<mapsto> TextValue ''test''),
     calls := calls w @ [CacheSet (testKey now) (TextValue ''test'') 10000, CacheGet (testKey now), FindOne pid]\<rparr>"
  have g: "getCart w3 uid now = (CartValue c, w3\<lparr>calls := calls w3 @ [CacheGet (getCartKey uid)]\<rparr>)"
    using getCart_eq [of w3 uid now] getCart_fst_cong [of w3 uid w now] assms(2)
    by (simp add: w3_def)
  show ?thesis
    using assms(1,3) g
    by (simp add: addToCart_def cache_get_def cache_set_def findOne_def Let_def w3_def reserve_def
        recalculate_def reprice_def)
qed

text \<open>
  C7. When the product is found, the reservation succeeds and the cart has one line per
  product: if the cart has a line for the product, \<^verbatim>\<open>addToCart\<close> leaves the other
  lines as they are and that single line with its quantity raised by the quantity added
  and with price, original price and sale percentage taken from the catalog at this
  call; otherwise it appends a new line, with \<^verbatim>\<open>selected\<close> true.
\<close>

theorem addToCart_merges_or_appends:
  assumes "products w pid = Some p" and "fst (getCart w uid now) = CartValue c"
    and "reserveStock svc (stock w) pid q = (Inr True, st)"
    and "distinct (map productId (items c))"
  shows "\<exists>c1 w1. addToCart svc w uid pid q now = (Inr c1, w1) \<and>
           cache w1 (getCartKey uid) = Some (CartValue c1) \<and>
           (if pid \<in> set (map productId (items c))
            then items c1 = map (\<lambda>item. if productId item = pid then reprice p q item else item) (items c) \<and>
                 (\<exists>old. filter (\<lambda>item. productId item = pid) (items c) = [old] \<and>
                    filter (\<lambda>item. productId item = pid) (items c1) = [reprice p q old])
            else items c1 = items c @
                   [\<lparr>productId = pid, productName = p_productName p,
                     price = calculateFinalPrice (sellingPrice p) (p_salePercentage p),
                     originalPrice = sellingPrice p,
                     salePercentage = opt_or_zero (p_salePercentage p),
                     quantity = q, addedAt = now, selected = Some True\<rparr>])"
proof -
  let ?P = "\<lambda>item. productId item = pid"
  let ?i = "findIndex ?P (items c)"
  from addToCart_success [OF assms(1-3)] obtain c1 w1 where
    r: "addToCart svc w uid pid q now = (Inr c1, w1)"
    and k: "cache w1 (getCartKey uid) = Some (CartValue c1)"
    and i: "items c1 = (if ?i > - 1 then (items c)[nat ?i := reprice p q (items c ! nat ?i)]
                 else items c @ [newItem pid p (calculateFinalPrice (sellingPrice p) (p_salePercentage p)) q now])"
    by (auto simp: Let_def)
  have pres: "\<And>x. productId (reprice p q x) = productId x" by (simp add: reprice_def)
  show ?thesis
  proof (cases "pid \<in> set (map productId (items c))")
    case True
    then have "?i \<noteq> - 1" by (auto simp: findIndex_none)
    from findIndex_found [OF this]
    have pos: "0 \<le> ?i" and lt: "nat ?i < length (items c)" and at: "productId (items c ! nat ?i) = pid"
      by simp_all
    from pos i have i1: "items c1 = (items c)[nat ?i := reprice p q (items c ! nat ?i)]" by simp
    have m: "items c1 = map (\<lambda>item. if productId item = pid then reprice p q item else item) (items c)"
      unfolding i1 by (rule update_distinct_map [OF assms(4) lt at])
    have f0: "filter ?P (items c) = [items c ! nat ?i]"
      by (rule filter_distinct_key [OF assms(4) lt at])
    have f1: "filter ?P (items c1) = [reprice p q (items c ! nat ?i)]"
      unfolding m using filter_map_key [of productId "reprice p q" pid "items c", OF pres] f0 by simp
    from True r k m f0 f1 show ?thesis by auto
  next
    case False
    then have "?i = - 1" by (auto simp: findIndex_none)
    with i have "items c1 = items c @ [newItem pid p (calculateFinalPrice (sellingPrice p) (p_salePercentage p)) q now]"
      by simp
    with False r k show ?thesis by (simp add: newItem_def)
  qed
qed

theorem addToCart_merges_or_appends_witness:
  "\<exists>c1 w1. addToCart counterInventory (cartWorld (\<lambda>pid. 5)) ''U1'' ''P1'' 3 50 = (Inr c1, w1) \<and>
      cache w1 (getCartKey ''U1'') = Some (CartValue c1) \<and>
      items exampleCart =
        [\<lparr>productId = ''P1'', productName = ''Cleanser'', price = 1000, originalPrice = 1000,
          salePercentage = 0, quantity = 2, addedAt = 10, selected = Some False\<rparr>] \<and>
      items c1 =
        [\<lparr>productId = ''P1'', productName = ''Cleanser'', price = 900, originalPrice = 1000,
          salePercentage = 10, quantity = 5, addedAt = 10, selected = Some False\<rparr>]"
proof -
  let ?p = "\<lparr>p_productId = ''P1'', p_productName = ''Cleanser'', sellingPrice = 1000,
                 p_salePercentage = Some 10\<rparr>"
  have p: "products (cartWorld (\<lambda>pid. 5::int)) ''P1'' = Some ?p"
    by (simp add: cartWorld_def exampleProducts_def)
  have g: "fst (getCart (cartWorld (\<lambda>pid. 5::int)) ''U1'' 50) = CartValue exampleCart"
    by (simp add: getCart_def cache_get_def cartWorld_def)
  have r: "reserveStock counterInventory (stock (cartWorld (\<lambda>pid. 5::int))) ''P1'' 3
        = (Inr True, (\<lambda>pid. 5)(''P1'' := 2))"
    by (simp add: counterInventory_def cartWorld_def)
  have d: "distinct (map productId (items exampleCart))"
    by (simp add: exampleCart_def)
  have e: "items exampleCart =
        [\<lparr>productId = ''P1'', productName = ''Cleanser'', price = 1000, originalPrice = 1000,
          salePercentage = 0, quantity = 2, addedAt = 10, selected = Some False\<rparr>]"
    by (simp add: exampleCart_def exampleItem_def)
  have m: "map (\<lambda>item. if productId item = ''P1'' then reprice ?p 3 item else item) (items exampleCart)
      = [\<lparr>productId = ''P1'', productName = ''Cleanser'', price = 900, originalPrice = 1000,
          salePercentage = 10, quantity = 5, addedAt = 10, selected = Some False\<rparr>]"
    by (simp add: e reprice_def price_1000_10 opt_or_zero_def or_zero_def)
  have i: "''P1'' \<in> set (map productId (items exampleCart))"
    by (simp add: e)
  from addToCart_merges_or_appends [OF p g r d] i m e
  show ?thesis by auto
qed

subsection \<open>The message of a refused increase\<close>

text \<open>
  What a refused increase does, for any cart and service: one reservation call for the
  difference, no write to the cache, and an exception whose message carries the old
  quantity of the line.
\<close>

lemma updateCartItem_refused:
  assumes "fst (getCart w uid now) = CartValue c"
    and "findIndex (\<lambda>item. productId item = pid) (items c) \<noteq> - 1"
    and "old = quantity (items c ! nat (findIndex (\<lambda>item. productId item = pid) (items c)))"
    and "0 < q" "old < q"
    and "reserveStock svc (stock w) pid (q - old) = (Inr False, st)"
  shows "updateCartItem svc w uid pid q now =
           (Inl (BadRequestException
                  (''Cannot increase quantity. Only '' @ show_int old @ '' available in stock.'')),
            w\<lparr>stock := st,
              calls := calls w @ [CacheGet (getCartKey uid), ReserveStock pid (q - old)]\<rparr>)"
proof -
  have g: "getCart w uid now = (CartValue c, w\<lparr>calls := calls w @ [CacheGet (getCartKey uid)]\<rparr>)"
    using getCart_eq [of w uid now] assms(1) by simp
  from assms(2-6) show ?thesis
    by (simp add: updateCartItem_def g Let_def adjustReservation_def reserve_def)
qed

text \<open>
  C3. The cart of U1 holds 2 units of P1 and the inventory has 1 unit of P1 left.
  \<^verbatim>\<open>updateCartItem\<close> to 5 units asks to reserve the difference, 3 units, is refused and
  leaves the cart as it was, but the message of its exception gives the old quantity of
  the line (2) as the number of units available in stock, which is 1.
\<close>

theorem updateCartItem_message_not_stock:
  "\<exists>w1. updateCartItem counterInventory (cartWorld (\<lambda>pid. 1)) ''U1'' ''P1'' 5 60
           = (Inl (BadRequestException ''Cannot increase quantity. Only 2 available in stock.''), w1) \<and>
         stock w1 ''P1'' = 1 \<and>
         calls w1 = [CacheGet (getCartKey ''U1''), ReserveStock ''P1'' 3] \<and>
         cache w1 (getCartKey ''U1'') = Some (CartValue exampleCart)"
  by (simp add: updateCartItem_def getCart_def cache_get_def cartWorld_def exampleCart_def
      exampleItem_def Let_def adjustReservation_def reserve_def counterInventory_def
      show_int_def show_nat.simps digit_def)

subsection \<open>Empty carts in the cache\<close>

text \<open>
  Every operation but \<^verbatim>\<open>toggleSelectAll\<close> leaves a cache without empty carts as
  such: the removals delete the key when no item is left, the others write a cart only
  after they have found or added an item.
\<close>

lemma store_nonempty_upd [simp]:
  "store_nonempty (w\<lparr>calls := cs\<rparr>) = store_nonempty w"
  "store_nonempty (w\<lparr>stock := s\<rparr>) = store_nonempty w"
  by (simp_all add: store_nonempty_def)

lemma store_nonempty_cong: "cache w1 = cache w \<Longrightarrow> store_nonempty w1 = store_nonempty w"
  by (simp add: store_nonempty_def)

lemma store_nonempty_set_cart:
  "store_nonempty w \<Longrightarrow> items c \<noteq> [] \<Longrightarrow> store_nonempty (cache_set w k (CartValue c) ttl)"
  by (simp add: store_nonempty_def cache_set_def)

lemma store_nonempty_set_text:
  "store_nonempty w \<Longrightarrow> store_nonempty (cache_set w k (TextValue s) ttl)"
  by (simp add: store_nonempty_def cache_set_def)

lemma store_nonempty_del: "store_nonempty w \<Longrightarrow> store_nonempty (cache_del w k)"
  by (simp add: store_nonempty_def cache_del_def)

lemma store_nonempty_saveOrDelete:
  "store_nonempty w \<Longrightarrow> store_nonempty (saveOrDelete w uid c)"
  by (simp add: saveOrDelete_def store_nonempty_set_cart store_nonempty_del)

lemma store_nonempty_getCart:
  "store_nonempty w \<Longrightarrow> getCart w uid now = (v, w1) \<Longrightarrow> store_nonempty w1"
  by (auto simp: getCart_def cache_get_def split: option.splits cached.splits if_splits)

lemma store_nonempty_reserve:
  "store_nonempty w \<Longrightarrow> reserve svc w pid q = (r, w1) \<Longrightarrow> store_nonempty w1"
  using cache_reserve store_nonempty_cong by blast

lemma store_nonempty_release:
  "store_nonempty w \<Longrightarrow> release svc w pid q = (r, w1) \<Longrightarrow> store_nonempty w1"
  using cache_release store_nonempty_cong by blast

lemma store_nonempty_adjust:
  "store_nonempty w \<Longrightarrow> adjustReservation svc w pid old d = (r, w1) \<Longrightarrow> store_nonempty w1"
  by (auto simp: adjustReservation_def split: prod.splits sum.splits if_splits
      dest: store_nonempty_reserve store_nonempty_release)

lemma findIndex_nonempty:
  "findIndex P xs \<noteq> - 1 \<Longrightarrow> xs \<noteq> []"
  "- 1 < findIndex P xs \<Longrightarrow> xs \<noteq> []"
  by auto

lemma find_nonempty: "find P xs = Some x \<Longrightarrow> update_found P f xs \<noteq> []"
  by (cases xs) (auto split: if_splits)

lemma addToCart_nonempty:
  assumes "store_nonempty w" "addToCart svc w uid pid q now = (r, w1)"
  shows "store_nonempty w1"
  using assms
  by (auto simp: addToCart_def Let_def cache_get_def findOne_def store_nonempty_set_text
      store_nonempty_set_cart recalculate_def
      split: prod.splits option.splits cached.splits sum.splits if_splits
      dest!: store_nonempty_getCart [rotated] store_nonempty_reserve [rotated]
      dest: findIndex_nonempty)

lemma updateCartItem_nonempty:
  assumes "store_nonempty w" "updateCartItem svc w uid pid q now = (r, w1)"
  shows "store_nonempty w1"
  using assms
  by (auto simp: updateCartItem_def Let_def store_nonempty_set_cart recalculate_def
      split: prod.splits option.splits cached.splits sum.splits if_splits
      dest!: store_nonempty_getCart [rotated] store_nonempty_adjust [rotated]
      dest: findIndex_nonempty)

lemma removeFromCart_nonempty:
  assumes "store_nonempty w" "removeFromCart svc w uid pid now = (r, w1)"
  shows "store_nonempty w1"
  using assms
  by (auto simp: removeFromCart_def Let_def store_nonempty_saveOrDelete
      split: prod.splits option.splits cached.splits sum.splits if_splits
      dest!: store_nonempty_getCart [rotated] store_nonempty_release [rotated])

lemma toggleSelectItem_nonempty:
  assumes "store_nonempty w" "toggleSelectItem w uid pid sel now = (r, w1)"
  shows "store_nonempty w1"
  using assms
  by (auto simp: toggleSelectItem_def Let_def store_nonempty_set_cart find_nonempty
      split: prod.splits option.splits cached.splits sum.splits if_splits
      dest!: store_nonempty_getCart [rotated])

lemma removeSelectedItems_nonempty:
  assumes "store_nonempty w" "removeSelectedItems w uid now = (r, w1)"
  shows "store_nonempty w1"
  using assms
  by (auto simp: removeSelectedItems_def Let_def store_nonempty_saveOrDelete
      split: prod.splits option.splits cached.splits sum.splits if_splits
      dest!: store_nonempty_getCart [rotated])

lemma removeItemsByProductIds_nonempty:
  assumes "store_nonempty w" "removeItemsByProductIds w uid pids now = (r, w1)"
  shows "store_nonempty w1"
  using assms
  by (auto simp: removeItemsByProductIds_def Let_def store_nonempty_set_cart store_nonempty_del
      recalculate_def
      split: prod.splits option.splits cached.splits sum.splits if_splits
      dest!: store_nonempty_getCart [rotated])

lemma releaseAll_cache: "releaseAll svc w its = (r, w1) \<Longrightarrow> cache w1 = cache w"
proof (induction its arbitrary: w)
  case Nil
  then show ?case by simp
next
  case (Cons item rest)
  then show ?case
    by (auto split: prod.splits sum.splits dest: cache_release)
qed

lemma store_nonempty_releaseAll:
  "store_nonempty w \<Longrightarrow> releaseAll svc w its = (r, w1) \<Longrightarrow> store_nonempty w1"
  using releaseAll_cache store_nonempty_cong by blast

lemma clearCart_nonempty:
  assumes "store_nonempty w" "clearCart svc w uid now = (r, w1)"
  shows "store_nonempty w1"
  using assms
  by (auto simp: clearCart_def store_nonempty_del
      split: prod.splits option.splits cached.splits sum.splits if_splits
      dest!: store_nonempty_getCart [rotated] store_nonempty_releaseAll [rotated])

lemma perform_nonempty:
  assumes "store_nonempty w" "perform svc w m now = (r, w1)"
    and "\<And>uid sel. m \<noteq> ToggleSelectAll uid sel"
  shows "store_nonempty w1"
proof (cases m)
  case (AddToCart uid pid q)
  with assms show ?thesis using addToCart_nonempty [of w svc uid pid q now r w1] by simp
next
  case (UpdateCartItem uid pid q)
  with assms show ?thesis using updateCartItem_nonempty [of w svc uid pid q now r w1] by simp
next
  case (RemoveFromCart uid pid)
  with assms show ?thesis using removeFromCart_nonempty [of w svc uid pid now r w1] by simp
next
  case (ToggleSelectItem uid pid sel)
  with assms show ?thesis using toggleSelectItem_nonempty [of w uid pid sel now r w1] by simp
next
  case (ToggleSelectAll uid sel)
  with assms(3) [of uid sel] show ?thesis by simp
next
  case (RemoveSelectedItems uid)
  with assms show ?thesis using removeSelectedItems_nonempty [of w uid now r w1] by simp
next
  case (RemoveItemsByProductIds uid pids)
  with assms show ?thesis using removeItemsByProductIds_nonempty [of w uid pids now r w1] by simp
qed

text \<open>
  C5. With no cart in the cache for U1, \<^verbatim>\<open>toggleSelectAll\<close> writes the empty cart that
  \<^verbatim>\<open>getCart\<close> made up: afterwards the cache holds a cart without items.
\<close>

theorem toggleSelectAll_persists_empty_cart:
  "\<exists>c w1. toggleSelectAll (freshWorld (\<lambda>pid::string. 0::int)) ''U1'' True 5 = (Inr c, w1) \<and>
      cache (freshWorld (\<lambda>pid::string. 0::int)) (getCartKey ''U1'') = None \<and>
      items c = [] \<and>
      cache w1 (getCartKey ''U1'') = Some (CartValue c) \<and>
      calls w1 = [CacheGet (getCartKey ''U1''), CacheSet (getCartKey ''U1'') (CartValue c) 86400000]"
  by (simp add: toggleSelectAll_def getCart_def cache_get_def cache_set_def freshWorld_def
      emptyCart_def Let_def)

subsection \<open>Clearing the cart\<close>

lemma releaseAll_returns:
  "releasesReturn svc (stock w) its = Some s1 \<Longrightarrow>
     releaseAll svc w its = (Inr (), w\<lparr>stock := s1, calls := calls w @ map releaseCall its\<rparr>)"
proof (induction its arbitrary: w)
  case Nil
  then show ?case by simp
next
  case (Cons item rest)
  obtain r s0 where rr: "releaseReservation svc (stock w) (productId item) (quantity item) = (r, s0)"
    by (cases "releaseReservation svc (stock w) (productId item) (quantity item)")
  with Cons.prems obtain u where r: "r = Inr u" and rest: "releasesReturn svc s0 rest = Some s1"
    by (cases r) simp_all
  let ?w0 = "w\<lparr>stock := s0, calls := calls w @ [releaseCall item]\<rparr>"
  have rel: "release svc w (productId item) (quantity item) = (Inr u, ?w0)"
    by (simp add: release_def rr r releaseCall_def)
  have "releasesReturn svc (stock ?w0) rest = Some s1" using rest by simp
  from Cons.IH [OF this] rel show ?case by simp
qed

lemma releaseAll_throws:
  "releasesReturn svc (stock w) pre = Some s1 \<Longrightarrow>
   releaseReservation svc s1 (productId item) (quantity item) = (Inl e, s2) \<Longrightarrow>
     releaseAll svc w (pre @ item # post)
       = (Inl e, w\<lparr>stock := s2, calls := calls w @ map releaseCall (pre @ [item])\<rparr>)"
proof (induction pre arbitrary: w)
  case Nil
  then show ?case by (simp add: release_def releaseCall_def)
next
  case (Cons first pre)
  obtain r s0 where rr: "releaseReservation svc (stock w) (productId first) (quantity first) = (r, s0)"
    by (cases "releaseReservation svc (stock w) (productId first) (quantity first)")
  with Cons.prems(1) obtain u where r: "r = Inr u" and rest: "releasesReturn svc s0 pre = Some s1"
    by (cases r) simp_all
  let ?w0 = "w\<lparr>stock := s0, calls := calls w @ [releaseCall first]\<rparr>"
  have rel: "release svc w (productId first) (quantity first) = (Inr u, ?w0)"
    by (simp add: release_def rr r releaseCall_def)
  have "releasesReturn svc (stock ?w0) pre = Some s1" using rest by simp
  from Cons.IH [OF this Cons.prems(2)] rel show ?case by simp
qed

lemma releasesReturn_cases:
  "(\<exists>s1. releasesReturn svc s its = Some s1) \<or>
   (\<exists>pre item post s1 e s2. its = pre @ item # post \<and> releasesReturn svc s pre = Some s1 \<and>
      releaseReservation svc s1 (productId item) (quantity item) = (Inl e, s2))"
proof (induction its arbitrary: s)
  case Nil
  then show ?case by simp
next
  case (Cons item rest)
  obtain r s0 where rr: "releaseReservation svc s (productId item) (quantity item) = (r, s0)"
    by (cases "releaseReservation svc s (productId item) (quantity item)")
  show ?case
  proof (cases r)
    case (Inl e)
    with rr have "item # rest = [] @ item # rest \<and> releasesReturn svc s [] = Some s \<and>
      releaseReservation svc s (productId item) (quantity item) = (Inl e, s0)" by simp
    then show ?thesis by blast
  next
    case (Inr u)
    from Cons.IH [of s0] show ?thesis
    proof
      assume "\<exists>s1. releasesReturn svc s0 rest = Some s1"
      with rr Inr show ?thesis by simp
    next
      assume "\<exists>pre it post s1 e s2. rest = pre @ it # post \<and> releasesReturn svc s0 pre = Some s1 \<and>
        releaseReservation svc s1 (productId it) (quantity it) = (Inl e, s2)"
      then obtain pre it post s1 e s2 where h: "rest = pre @ it # post"
        "releasesReturn svc s0 pre = Some s1"
        "releaseReservation svc s1 (productId it) (quantity it) = (Inl e, s2)" by blast
      with rr Inr have "item # rest = (item # pre) @ it # post \<and>
        releasesReturn svc s (item # pre) = Some s1 \<and>
        releaseReservation svc s1 (productId it) (quantity it) = (Inl e, s2)" by simp
      then show ?thesis by blast
    qed
  qed
qed

text \<open>
  C4, as amended. \<^verbatim>\<open>clearCart\<close> reads the cart and issues the release calls in the order
  of the items, each for the full quantity of its item. If every release call returns,
  there is exactly one call per item, then the key is deleted, and \<^verbatim>\<open>clearCart\<close>
  returns. If the release calls for the items before some item return and the call for
  that item throws, \<^verbatim>\<open>clearCart\<close> throws the same exception at once: the release calls
  made are those up to that item, none is made for the items after it, and the key is
  not deleted. One of the two is always the case.
\<close>

theorem clearCart_releases_in_order:
  assumes "fst (getCart w uid now) = CartValue c"
  shows "(\<forall>s1. releasesReturn svc (stock w) (items c) = Some s1 \<longrightarrow>
            clearCart svc w uid now =
              (Inr (), w\<lparr>cache := (cache w)(getCartKey uid := None), stock := s1,
                         calls := calls w @ CacheGet (getCartKey uid) #
                           map releaseCall (items c) @ [CacheDel (getCartKey uid)]\<rparr>)) \<and>
         (\<forall>pre item post s1 e s2.
            items c = pre @ item # post \<and> releasesReturn svc (stock w) pre = Some s1 \<and>
            releaseReservation svc s1 (productId item) (quantity item) = (Inl e, s2) \<longrightarrow>
            clearCart svc w uid now =
              (Inl e, w\<lparr>stock := s2,
                        calls := calls w @ CacheGet (getCartKey uid) #
                          map releaseCall (pre @ [item])\<rparr>)) \<and>
         ((\<exists>s1. releasesReturn svc (stock w) (items c) = Some s1) \<or>
          (\<exists>pre item post s1 e s2.
             items c = pre @ item # post \<and> releasesReturn svc (stock w) pre = Some s1 \<and>
             releaseReservation svc s1 (productId item) (quantity item) = (Inl e, s2)))"
proof (intro conjI allI impI)
  let ?w0 = "w\<lparr>calls := calls w @ [CacheGet (getCartKey uid)]\<rparr>"
  have g: "getCart w uid now = (CartValue c, ?w0)"
    using getCart_eq [of w uid now] assms by simp
  {
    fix s1
    assume a: "releasesReturn svc (stock w) (items c) = Some s1"
    then have "releasesReturn svc (stock ?w0) (items c) = Some s1" by simp
    from releaseAll_returns [OF this]
    have ra: "releaseAll svc ?w0 (items c)
        = (Inr (), ?w0\<lparr>stock := s1, calls := calls ?w0 @ map releaseCall (items c)\<rparr>)" .
    have e: "items c = [] \<Longrightarrow> s1 = stock w" using a by simp
    show "clearCart svc w uid now =
              (Inr (), w\<lparr>cache := (cache w)(getCartKey uid := None), stock := s1,
                         calls := calls w @ CacheGet (getCartKey uid) #
                           map releaseCall (items c) @ [CacheDel (getCartKey uid)]\<rparr>)"
      using ra e by (cases "items c = []") (simp_all add: clearCart_def g cache_del_def)
  }
  {
    fix pre item post s1 e s2
    assume a: "items c = pre @ item # post \<and> releasesReturn svc (stock w) pre = Some s1 \<and>
            releaseReservation svc s1 (productId item) (quantity item) = (Inl e, s2)"
    then have "releasesReturn svc (stock ?w0) pre = Some s1" by simp
    from releaseAll_throws [OF this, of item e s2 post] a
    have ra: "releaseAll svc ?w0 (items c)
        = (Inl e, ?w0\<lparr>stock := s2, calls := calls ?w0 @ map releaseCall (pre @ [item])\<rparr>)"
      by simp
    show "clearCart svc w uid now =
              (Inl e, w\<lparr>stock := s2,
                        calls := calls w @ CacheGet (getCartKey uid) #
                          map releaseCall (pre @ [item])\<rparr>)"
      using ra a by (simp add: clearCart_def g)
  }
  show "(\<exists>s1. releasesReturn svc (stock w) (items c) = Some s1) \<or>
          (\<exists>pre item post s1 e s2.
             items c = pre @ item # post \<and> releasesReturn svc (stock w) pre = Some s1 \<and>
             releaseReservation svc s1 (productId item) (quantity item) = (Inl e, s2))"
    by (rule releasesReturn_cases)
qed

theorem clearCart_releases_in_order_witness:
  "(\<exists>w1. clearCart counterInventory (pairWorld (\<lambda>pid. 0)) ''U3'' 80 = (Inr (), w1) \<and>
      calls w1 =
        [CacheGet (getCartKey ''U3''), ReleaseReservation ''P1'' 3, ReleaseReservation ''P2'' 3,
         CacheDel (getCartKey ''U3'')] \<and>
      cache w1 (getCartKey ''U3'') = None) \<and>
   (\<exists>w1. clearCart (faultyInventory [''P2'']) (pairWorld (\<lambda>pid. 0)) ''U3'' 80
           = (Inl (ServiceError ''release failed''), w1) \<and>
      calls w1 =
        [CacheGet (getCartKey ''U3''), ReleaseReservation ''P1'' 3, ReleaseReservation ''P2'' 3] \<and>
      cache w1 (getCartKey ''U3'') = Some (CartValue pairCart))"
proof -
  let ?w = "pairWorld (\<lambda>pid::string. 0::int)"
  have g: "fst (getCart ?w ''U3'' 80) = CartValue pairCart"
    by (simp add: getCart_def cache_get_def pairWorld_def)
  have ok: "releasesReturn counterInventory (stock ?w) (items pairCart)
      = Some ((\<lambda>pid. 0)(''P1'' := 3, ''P2'' := 3))"
    by (simp add: counterInventory_def pairWorld_def pairCart_def itemA_def itemB_def)
  have split: "items pairCart = [itemA] @ itemB # []" by (simp add: pairCart_def)
  have pre: "releasesReturn (faultyInventory [''P2'']) (stock ?w) [itemA]
      = Some ((\<lambda>pid. 0)(''P1'' := 3))"
    by (simp add: faultyInventory_def pairWorld_def itemA_def)
  have bad: "releaseReservation (faultyInventory [''P2'']) ((\<lambda>pid. 0)(''P1'' := 3))
      (productId itemB) (quantity itemB)
      = (Inl (ServiceError ''release failed''), (\<lambda>pid. 0)(''P1'' := 3))"
    by (simp add: faultyInventory_def itemB_def)
  note thm1 = clearCart_releases_in_order [OF g, of counterInventory, THEN conjunct1, rule_format, OF ok]
  note thm2 = clearCart_releases_in_order [OF g, of "faultyInventory [''P2'']",
      THEN conjunct2, THEN conjunct1, rule_format, OF conjI [OF split conjI [OF pre bad]]]
  have a: "\<exists>w1. clearCart counterInventory ?w ''U3'' 80 = (Inr (), w1) \<and>
      calls w1 =
        [CacheGet (getCartKey ''U3''), ReleaseReservation ''P1'' 3, ReleaseReservation ''P2'' 3,
         CacheDel (getCartKey ''U3'')] \<and>
      cache w1 (getCartKey ''U3'') = None"
    unfolding thm1 by (simp add: pairWorld_def pairCart_def itemA_def itemB_def releaseCall_def)
  have b: "\<exists>w1. clearCart (faultyInventory [''P2'']) ?w ''U3'' 80
           = (Inl (ServiceError ''release failed''), w1) \<and>
      calls w1 =
        [CacheGet (getCartKey ''U3''), ReleaseReservation ''P1'' 3, ReleaseReservation ''P2'' 3] \<and>
      cache w1 (getCartKey ''U3'') = Some (CartValue pairCart)"
    unfolding thm2 by (simp add: pairWorld_def itemA_def itemB_def releaseCall_def)
  from a b show ?thesis by (rule conjI)
qed

text \<open>
  C4 as stated fails: in a cart with items of P1 and P2, when the release call for P1
  throws, no release call is made for P2 and the cart stays in the cache.
\<close>

theorem clearCart_stops_at_failure:
  "\<exists>w1. clearCart (faultyInventory [''P1'']) (pairWorld (\<lambda>pid. 0)) ''U3'' 80
           = (Inl (ServiceError ''release failed''), w1) \<and>
         map releaseCall (items pairCart)
           = [ReleaseReservation ''P1'' 3, ReleaseReservation ''P2'' 3] \<and>
         calls w1 = [CacheGet (getCartKey ''U3''), ReleaseReservation ''P1'' 3] \<and>
         cache w1 (getCartKey ''U3'') = Some (CartValue pairCart)"
  by (simp add: clearCart_def getCart_def cache_get_def pairWorld_def pairCart_def itemA_def
      itemB_def release_def faultyInventory_def releaseCall_def)

end
